theory Spec2Isabelle
  imports
    Main
    "HOL-Library.Char_ord"
    "HOL-Library.List_Lexorder"
    "HOL-Library.Multiset"
    "HOL-Library.Option_ord"
    "HOL-Library.Product_Lexorder"
begin

section \<open>The TV data pipeline of \<^verbatim>\<open>tv_data_processor.py\<close>\<close>

text \<open>
  \<^verbatim>\<open>TVDataProcessor\<close> reads two sheets into pandas frames, normalises the viewing
  sheet, outer-joins it with the producers sheet, aggregates per
  (Producer, Month, Channel), casts the columns and writes the records.

  The embedding keeps one HOL function per method. A frame is the list of its column
  names together with the list of its rows; a row is a record with one field per column
  of the sheet's schema, and a nullable cell (NaN, NaT) is an \<open>option\<close>. A method that
  reads a column absent from \<open>columns\<close> raises \<^verbatim>\<open>KeyError\<close>, which is the value
  \<open>Inl KeyError\<close> here; the field of an absent column is never read. Every method
  mutates \<^verbatim>\<open>self\<close>; here each one returns the frame it leaves behind.

  Library behaviour the model fixes (pandas 2.2):
  \<^item> strings are compared as Python compares \<^verbatim>\<open>str\<close>, by code point, which on UTF-8
    bytes is the lexicographic order of the bytes;
  \<^item> \<^verbatim>\<open>DataFrame.fillna\<close> with a dict skips a key that is not a column;
  \<^item> \<^verbatim>\<open>merge(how='outer')\<close> orders the result by the join key;
  \<^item> \<^verbatim>\<open>groupby\<close> drops a row that has a null key and orders the groups by key;
  \<^item> \<^verbatim>\<open>sort_values\<close> is stable and puts nulls last;
  \<^item> \<^verbatim>\<open>Series.idxmax\<close> accepts strings and returns the first label of the greatest one;
  \<^item> sums skip nulls, and \<^verbatim>\<open>max\<close> of nulls only is null.

  Counts are integers and the Viewers column is an \<^verbatim>\<open>int64\<close> column: a sum wraps
  around at \<open>2^63\<close>. (A Viewers column that holds a null is \<^verbatim>\<open>float64\<close> in pandas.
  Its sums are the same as long as they stay below \<open>2^53\<close> in magnitude and are rounded
  beyond; the rounding is not described here, and the statements that need the exact sum
  assume that the Viewers of the table sum to less than \<open>2^53\<close>.) A blank cell of the
  Channel or Viewers column is a null; Programme and Territory are text.
\<close>

subsection \<open>Data\<close>

datatype error = KeyError | ValueError | AttributeError

record 'r frame =
  columns :: "string list"
  rows :: "'r list"

text \<open>A timestamp is (year, month, day, nanoseconds since midnight), four Python
  integers; its order is the order of time. A monthly period is (year, month).\<close>

type_synonym timestamp = "int \<times> int \<times> int \<times> int"
type_synonym period = "int \<times> int"

text \<open>A cell of the raw Date column: a value \<^verbatim>\<open>pd.to_datetime\<close> turns into a
  timestamp, or anything else (a blank, free text).\<close>

datatype date_cell = Datetime timestamp | NotADate

record viewing =
  raw_Date :: date_cell
  raw_Programme :: string
  raw_Territory :: string
  raw_Channel :: "int option"
  raw_Viewers :: "int option"

record nviewing =
  nv_Date :: "timestamp option"
  nv_Month :: "period option"
  nv_Programme :: string
  nv_Territory :: string
  nv_Channel :: "int option"
  nv_Viewers :: "int option"

record producer =
  pr_Programme :: string
  pr_Producer :: "string option"

record joined =
  Programme :: string
  Producer :: "string option"
  Date :: "timestamp option"
  Month :: "period option"
  Territory :: "string option"
  Channel :: "int option"
  Viewers :: "int option"

type_synonym group_key = "string \<times> period \<times> int"

record summary =
  sm_Producer :: string
  sm_Month :: period
  sm_Channel :: int
  sm_Top_Programme :: string
  sm_Highest_Viewers :: "int option"
  sm_Sum_of_Viewers :: int
  sm_Cumulative_Viewers :: "int option"

record out_record =
  out_Producer :: string
  out_Month :: string
  out_Channel :: int
  out_Top_Programme :: string
  out_Highest_Viewers :: int
  out_Sum_of_Viewers :: int
  out_Cumulative_Viewers :: int

subsection \<open>\<^verbatim>\<open>preprocess_data\<close>\<close>

text \<open>\<^verbatim>\<open>pd.to_datetime(cell, errors='coerce')\<close>: what does not parse becomes NaT.\<close>

fun to_datetime :: "date_cell \<Rightarrow> timestamp option" where
  "to_datetime (Datetime t) = Some t"
| "to_datetime NotADate = None"

text \<open>\<^verbatim>\<open>.dt.to_period('M')\<close>: the calendar month of a timestamp, NaT for NaT.\<close>

fun to_period :: "timestamp option \<Rightarrow> period option" where
  "to_period None = None"
| "to_period (Some (y, m, d, t)) = Some (y, m)"

text \<open>\<^verbatim>\<open>str.strip()\<close> removes the characters for which \<^verbatim>\<open>str.isspace\<close> holds from both
  ends. A string is its UTF-8 bytes here, so each of these characters is the sequence of
  bytes that encodes it: tab, line feed, vertical tab, form feed, carriage return, the
  four separators U+001C to U+001F, the space, U+0085, U+00A0, U+1680, U+2000 to
  U+200A, U+2028, U+2029, U+202F, U+205F and U+3000.\<close>

definition whitespace :: "string list" where
  "whitespace =
     [[CHR 0x09], [CHR 0x0A], [CHR 0x0B], [CHR 0x0C], [CHR 0x0D],
      [CHR 0x1C], [CHR 0x1D], [CHR 0x1E], [CHR 0x1F], [CHR 0x20],
      [CHR 0xC2, CHR 0x85], [CHR 0xC2, CHR 0xA0], [CHR 0xE1, CHR 0x9A, CHR 0x80],
      [CHR 0xE2, CHR 0x80, CHR 0x80], [CHR 0xE2, CHR 0x80, CHR 0x81],
      [CHR 0xE2, CHR 0x80, CHR 0x82], [CHR 0xE2, CHR 0x80, CHR 0x83],
      [CHR 0xE2, CHR 0x80, CHR 0x84], [CHR 0xE2, CHR 0x80, CHR 0x85],
      [CHR 0xE2, CHR 0x80, CHR 0x86], [CHR 0xE2, CHR 0x80, CHR 0x87],
      [CHR 0xE2, CHR 0x80, CHR 0x88], [CHR 0xE2, CHR 0x80, CHR 0x89],
      [CHR 0xE2, CHR 0x80, CHR 0x8A], [CHR 0xE2, CHR 0x80, CHR 0xA8],
      [CHR 0xE2, CHR 0x80, CHR 0xA9], [CHR 0xE2, CHR 0x80, CHR 0xAF],
      [CHR 0xE2, CHR 0x81, CHR 0x9F], [CHR 0xE3, CHR 0x80, CHR 0x80]]"

text \<open>\<open>lstrip ws s\<close> removes from the front of \<open>s\<close>, as long as there is one, a sequence
  of \<open>ws\<close>. The right end is stripped on the reversed string with the reversed
  sequences: a UTF-8 string ends with the bytes of a character only if that character
  is its last.\<close>

function lstrip :: "string list \<Rightarrow> string \<Rightarrow> string" where
  "lstrip ws s =
     (case List.find (\<lambda>w. w \<noteq> [] \<and> take (length w) s = w) ws of
        None \<Rightarrow> s
      | Some w \<Rightarrow> lstrip ws (drop (length w) s))"
  by pat_completeness auto

termination
proof (relation "measure (\<lambda>(ws, s). length s)")
  show "wf (measure (\<lambda>(ws :: string list, s :: string). length s))"
    by simp
next
  fix ws :: "string list" and s w :: string
  assume "List.find (\<lambda>w. w \<noteq> [] \<and> take (length w) s = w) ws = Some w"
  then have w: "w \<noteq> []" and t: "take (length w) s = w"
    by (auto simp: find_Some_iff)
  from arg_cong [OF t, of length] have "length w \<le> length s"
    by simp
  with w show "((ws, drop (length w) s), (ws, s)) \<in> measure (\<lambda>(ws, s). length s)"
    by (cases w) auto
qed

definition strip :: "string \<Rightarrow> string" where
  "strip s = rev (lstrip (map rev whitespace) (rev (lstrip whitespace s)))"

definition fillna_Viewers :: "int option \<Rightarrow> int option" where
  "fillna_Viewers v = (case v of None \<Rightarrow> Some 0 | Some x \<Rightarrow> Some x)"

definition preprocess_row :: "bool \<Rightarrow> viewing \<Rightarrow> nviewing" where
  "preprocess_row has_viewers r =
     \<lparr> nv_Date = to_datetime (raw_Date r),
       nv_Month = to_period (to_datetime (raw_Date r)),
       nv_Programme = strip (raw_Programme r),
       nv_Territory = strip (raw_Territory r),
       nv_Channel = raw_Channel r,
       nv_Viewers = (if has_viewers then fillna_Viewers (raw_Viewers r) else raw_Viewers r) \<rparr>"

text \<open>The three column reads raise \<^verbatim>\<open>KeyError\<close> in the order of the source. On a
  sheet with no rows the Date column that \<^verbatim>\<open>apply\<close> returns has dtype
  \<^verbatim>\<open>object\<close>, and its \<^verbatim>\<open>.dt\<close> raises \<^verbatim>\<open>AttributeError\<close>, which the
  \<^verbatim>\<open>except KeyError\<close> of the method lets through. The \<^verbatim>\<open>fillna\<close> of the last line
  raises nothing when the frame has no Viewers column.\<close>

definition preprocess_data :: "viewing frame \<Rightarrow> error + nviewing frame" where
  "preprocess_data df =
     (if ''Date'' \<notin> set (columns df) then Inl KeyError
      else if rows df = [] then Inl AttributeError
      else if ''Programme'' \<notin> set (columns df) then Inl KeyError
      else if ''Territory'' \<notin> set (columns df) then Inl KeyError
      else Inr \<lparr> columns = (if ''Month'' \<in> set (columns df) then columns df
                            else columns df @ [''Month'']),
                 rows = map (preprocess_row (''Viewers'' \<in> set (columns df))) (rows df) \<rparr>)"

subsection \<open>\<^verbatim>\<open>merge_data\<close>\<close>

definition producer_only :: "producer \<Rightarrow> joined" where
  "producer_only p =
     \<lparr> Programme = pr_Programme p, Producer = pr_Producer p, Date = None, Month = None,
       Territory = None, Channel = None, Viewers = None \<rparr>"

definition viewing_only :: "nviewing \<Rightarrow> joined" where
  "viewing_only v =
     \<lparr> Programme = nv_Programme v, Producer = None, Date = nv_Date v, Month = nv_Month v,
       Territory = Some (nv_Territory v), Channel = nv_Channel v,
       Viewers = nv_Viewers v \<rparr>"

definition matched :: "producer \<Rightarrow> nviewing \<Rightarrow> joined" where
  "matched p v = (viewing_only v) \<lparr> Producer := pr_Producer p \<rparr>"

text \<open>The rows of one join key: the pairs of a producer row and a viewing row, the
  producer rows running slowest; the rows of one side alone when the other has none.\<close>

definition merge_key :: "producer list \<Rightarrow> nviewing list \<Rightarrow> joined list" where
  "merge_key ps vs =
     (if vs = [] then map producer_only ps
      else if ps = [] then map viewing_only vs
      else concat (map (\<lambda>p. map (matched p) vs) ps))"

definition merge_outer :: "producer list \<Rightarrow> nviewing list \<Rightarrow> joined list" where
  "merge_outer ps vs =
     concat (map (\<lambda>k. merge_key (filter (\<lambda>p. pr_Programme p = k) ps)
                                (filter (\<lambda>v. nv_Programme v = k) vs))
                 (sort (remdups (map pr_Programme ps @ map nv_Programme vs))))"

text \<open>Columns of the merged frame: the left ones, then the right ones without the
  key; a name the two sides share gets the suffixes \<^verbatim>\<open>_x\<close> and \<^verbatim>\<open>_y\<close>.\<close>

definition merge_columns :: "string list \<Rightarrow> string list \<Rightarrow> string list" where
  "merge_columns ls rs =
     map (\<lambda>c. if c \<noteq> ''Programme'' \<and> c \<in> set rs then c @ ''_x'' else c) ls @
     map (\<lambda>c. if c \<in> set ls then c @ ''_y'' else c) (filter (\<lambda>c. c \<noteq> ''Programme'') rs)"

definition fillna_Producer :: "joined \<Rightarrow> joined" where
  "fillna_Producer r =
     (case Producer r of None \<Rightarrow> r \<lparr> Producer := Some ''Unknown'' \<rparr> | Some p \<Rightarrow> r)"

definition merge_data :: "producer frame \<Rightarrow> nviewing frame \<Rightarrow> error + joined frame" where
  "merge_data df_producers df_viewings =
     (if ''Programme'' \<notin> set (columns df_producers) \<or>
         ''Programme'' \<notin> set (columns df_viewings) then Inl KeyError
      else
        let cs = merge_columns (columns df_producers) (columns df_viewings);
            js = merge_outer (rows df_producers) (rows df_viewings)
        in Inr \<lparr> columns = cs,
                 rows = (if ''Producer'' \<in> set cs then map fillna_Producer js else js) \<rparr>)"

subsection \<open>\<^verbatim>\<open>aggregate_data\<close>\<close>

text \<open>A traversal that stops at the first error, as an exception would.\<close>

fun collect :: "(error + 'a) list \<Rightarrow> error + 'a list" where
  "collect [] = Inr []"
| "collect (x # xs) =
     (case x of Inl e \<Rightarrow> Inl e
      | Inr v \<Rightarrow> (case collect xs of Inl e \<Rightarrow> Inl e | Inr vs \<Rightarrow> Inr (v # vs)))"

text \<open>\<^verbatim>\<open>groupby(['Producer', 'Month', 'Channel'])\<close>: a row with a null in a key column
  belongs to no group; the groups come in ascending order of their keys, and the rows
  of a group keep the order of the frame.\<close>

definition group_key :: "joined \<Rightarrow> group_key option" where
  "group_key r =
     (case Producer r of None \<Rightarrow> None
      | Some p \<Rightarrow> (case Month r of None \<Rightarrow> None
          | Some m \<Rightarrow> (case Channel r of None \<Rightarrow> None | Some c \<Rightarrow> Some (p, m, c))))"

definition groupby_keys :: "joined list \<Rightarrow> group_key list" where
  "groupby_keys rs = sort (remdups (List.map_filter group_key rs))"

definition group_rows :: "joined list \<Rightarrow> group_key \<Rightarrow> joined list" where
  "group_rows rs k = filter (\<lambda>r. group_key r = Some k) rs"

text \<open>\<^verbatim>\<open>Series.idxmax\<close>: the position of the first greatest value; an empty series
  has none (\<^verbatim>\<open>ValueError\<close>). The loop keeps the best position and value seen so far
  and moves only on a strictly greater value.\<close>

fun idxmax_loop :: "'a::linorder list \<Rightarrow> nat \<Rightarrow> nat \<Rightarrow> 'a \<Rightarrow> nat" where
  "idxmax_loop [] i best bv = best"
| "idxmax_loop (x # xs) i best bv =
     (if bv < x then idxmax_loop xs (Suc i) i x else idxmax_loop xs (Suc i) best bv)"

definition idxmax :: "'a::linorder list \<Rightarrow> nat option" where
  "idxmax xs = (case xs of [] \<Rightarrow> None | x # ys \<Rightarrow> Some (idxmax_loop ys 1 0 x))"

text \<open>The aggregation \<^verbatim>\<open>('Programme', lambda x: x.loc[x.idxmax()])\<close>: \<open>x\<close> is the
  Programme column of the group, so \<^verbatim>\<open>idxmax\<close> runs over the programme names.\<close>

definition top_programme :: "string list \<Rightarrow> error + string" where
  "top_programme x = (case idxmax x of None \<Rightarrow> Inl ValueError | Some i \<Rightarrow> Inr (x ! i))"

definition max_skipna :: "int option list \<Rightarrow> int option" where
  "max_skipna xs = (case List.map_filter id xs of [] \<Rightarrow> None | y # ys \<Rightarrow> Some (fold max ys y))"

text \<open>Sums are sums of \<^verbatim>\<open>int64\<close>: every addition wraps around at \<open>2^63\<close>, so
  \<open>2^62 + 2^62\<close> is \<open>-2^63\<close>.\<close>

definition wrap64 :: "int \<Rightarrow> int" where
  "wrap64 x = (x + 9223372036854775808) mod 18446744073709551616 - 9223372036854775808"

definition sum_skipna :: "int option list \<Rightarrow> int" where
  "sum_skipna xs = fold (\<lambda>v s. wrap64 (s + v)) (List.map_filter id xs) 0"

type_synonym peak = "group_key \<times> string \<times> int option \<times> int"

definition peak_row :: "joined list \<Rightarrow> group_key \<Rightarrow> error + peak" where
  "peak_row rs k =
     (let g = group_rows rs k in
      case top_programme (map Programme g) of
        Inl e \<Rightarrow> Inl e
      | Inr t \<Rightarrow> Inr (k, t, max_skipna (map Viewers g), sum_skipna (map Viewers g)))"

definition peak_summary :: "joined list \<Rightarrow> error + peak list" where
  "peak_summary rs = collect (map (peak_row rs) (groupby_keys rs))"

text \<open>\<^verbatim>\<open>sort_values(['Producer', 'Month', 'Channel', 'Date'])\<close>: ascending, stable,
  nulls last in every column. The flag of \<open>na_last\<close> is \<open>False\<close> for a value and
  \<open>True\<close> for a null, and \<open>False < True\<close>.\<close>

definition na_last :: "'a option \<Rightarrow> bool \<times> 'a option" where
  "na_last x = (x = None, x)"

definition sort_columns ::
  "joined \<Rightarrow> (bool \<times> string option) \<times> (bool \<times> period option) \<times>
             (bool \<times> int option) \<times> (bool \<times> timestamp option)" where
  "sort_columns r = (na_last (Producer r), na_last (Month r), na_last (Channel r), na_last (Date r))"

definition sort_values :: "joined list \<Rightarrow> joined list" where
  "sort_values rs = sort_key sort_columns rs"

text \<open>\<^verbatim>\<open>groupby(['Producer'])['Viewers'].cumsum()\<close>: one running total per producer,
  carried down the frame in \<open>acc\<close>. A null Viewers gives a null and leaves the total
  alone; so does a row without a producer.\<close>

fun cumsum :: "(string \<Rightarrow> int) \<Rightarrow> joined list \<Rightarrow> int option list" where
  "cumsum acc [] = []"
| "cumsum acc (r # rs) =
     (case Producer r of
        None \<Rightarrow> None # cumsum acc rs
      | Some p \<Rightarrow>
          (case Viewers r of
             None \<Rightarrow> None # cumsum acc rs
           | Some v \<Rightarrow>
               Some (wrap64 (acc p + v)) #
               cumsum (\<lambda>q. if q = p then wrap64 (acc p + v) else acc q) rs))"

text \<open>The sorted frame with its new column \<^verbatim>\<open>Cumulative_Viewers\<close>.\<close>

definition with_cumulative :: "joined list \<Rightarrow> (joined \<times> int option) list" where
  "with_cumulative rs = zip (sort_values rs) (cumsum (\<lambda>p. 0) (sort_values rs))"

definition cumulative_summary :: "joined list \<Rightarrow> (group_key \<times> int option) list" where
  "cumulative_summary rs =
     map (\<lambda>k. (k, max_skipna (map snd (filter (\<lambda>rc. group_key (fst rc) = Some k)
                                               (with_cumulative rs)))))
         (groupby_keys (sort_values rs))"

text \<open>\<^verbatim>\<open>summary.merge(cumulative_summary, on=[...])\<close>: an inner join, in the order of
  the left rows.\<close>

definition merge_summary :: "peak list \<Rightarrow> (group_key \<times> int option) list \<Rightarrow> summary list" where
  "merge_summary ls rs =
     concat (map (\<lambda>(k, t, h, s).
                    map (\<lambda>kc. \<lparr> sm_Producer = fst k, sm_Month = fst (snd k),
                                sm_Channel = snd (snd k), sm_Top_Programme = t,
                                sm_Highest_Viewers = h, sm_Sum_of_Viewers = s,
                                sm_Cumulative_Viewers = snd kc \<rparr>)
                        (filter (\<lambda>kc. fst kc = k) rs))
                 ls)"

definition aggregate_data :: "joined frame \<Rightarrow> error + summary list" where
  "aggregate_data df =
     (if \<not> set [''Producer'', ''Month'', ''Channel'', ''Programme'', ''Viewers'', ''Date'']
             \<subseteq> set (columns df) then Inl KeyError
      else case peak_summary (rows df) of
             Inl e \<Rightarrow> Inl e
           | Inr s \<Rightarrow> Inr (merge_summary s (cumulative_summary (rows df))))"

subsection \<open>\<^verbatim>\<open>convert_data_types\<close> and \<^verbatim>\<open>save_summary_to_json\<close>\<close>

text \<open>\<^verbatim>\<open>astype('int')\<close> refuses a null (\<^verbatim>\<open>ValueError\<close>).\<close>

definition astype_int :: "int option \<Rightarrow> error + int" where
  "astype_int v = (case v of None \<Rightarrow> Inl ValueError | Some x \<Rightarrow> Inr x)"

text \<open>\<^verbatim>\<open>astype('string')\<close> of a monthly period: four digits of the year, a hyphen,
  two digits of the month. (The year of a pandas timestamp has four digits.)\<close>

definition digit :: "int \<Rightarrow> char" where
  "digit n = char_of (48 + n)"

definition period_str :: "period \<Rightarrow> string" where
  "period_str p =
     (case p of (y, m) \<Rightarrow>
        [digit (y div 1000 mod 10), digit (y div 100 mod 10), digit (y div 10 mod 10),
         digit (y mod 10), CHR ''-'', digit (m div 10 mod 10), digit (m mod 10)])"

definition convert_row :: "summary \<Rightarrow> error + out_record" where
  "convert_row s =
     (case astype_int (sm_Highest_Viewers s) of
        Inl e \<Rightarrow> Inl e
      | Inr h \<Rightarrow>
          (case astype_int (sm_Cumulative_Viewers s) of
             Inl e \<Rightarrow> Inl e
           | Inr c \<Rightarrow>
               Inr \<lparr> out_Producer = sm_Producer s, out_Month = period_str (sm_Month s),
                     out_Channel = sm_Channel s, out_Top_Programme = sm_Top_Programme s,
                     out_Highest_Viewers = h, out_Sum_of_Viewers = sm_Sum_of_Viewers s,
                     out_Cumulative_Viewers = c \<rparr>))"

definition convert_data_types :: "summary list \<Rightarrow> error + out_record list" where
  "convert_data_types final_summary = collect (map convert_row final_summary)"

text \<open>\<^verbatim>\<open>to_json(orient='records')\<close> writes one object per row, in the order of the
  rows; the value is the sequence of records written.\<close>

definition save_summary_to_json :: "out_record list \<Rightarrow> out_record list" where
  "save_summary_to_json final_summary = final_summary"

subsection \<open>\<^verbatim>\<open>process_and_save_data\<close>\<close>

text \<open>The two frames are what \<^verbatim>\<open>load_data\<close> read. The result is the content of the
  output file, or the error raised before anything was written.\<close>

definition process_and_save_data ::
  "viewing frame \<Rightarrow> producer frame \<Rightarrow> error + out_record list" where
  "process_and_save_data df_viewings df_producers =
     (case preprocess_data df_viewings of
        Inl e \<Rightarrow> Inl e
      | Inr nv \<Rightarrow>
          (case merge_data df_producers nv of
             Inl e \<Rightarrow> Inl e
           | Inr j \<Rightarrow>
               (case aggregate_data j of
                  Inl e \<Rightarrow> Inl e
                | Inr s \<Rightarrow>
                    (case convert_data_types s of
                       Inl e \<Rightarrow> Inl e
                     | Inr out \<Rightarrow> Inr (save_summary_to_json out)))))"

section \<open>Notions used in the statements\<close>

text \<open>The columns \<^verbatim>\<open>aggregate_data\<close> reads.\<close>

definition required_columns :: "string list" where
  "required_columns = [''Producer'', ''Month'', ''Channel'', ''Programme'', ''Viewers'', ''Date'']"

text \<open>The key of a summary record, and the value \<^verbatim>\<open>aggregate_data\<close> gives a group:
  \<open>summary_of\<close> is the record of the key \<open>k\<close>, with the greatest programme name, the
  greatest and the summed Viewers of the rows of the group, and the greatest cell of the
  column \<^verbatim>\<open>Cumulative_Viewers\<close> within the group.\<close>

definition summary_key :: "summary \<Rightarrow> group_key" where
  "summary_key rec = (sm_Producer rec, sm_Month rec, sm_Channel rec)"

definition group_cumulative :: "joined list \<Rightarrow> group_key \<Rightarrow> int option" where
  "group_cumulative rs k = max_skipna (map snd (filter (\<lambda>rc. group_key (fst rc) = Some k) (with_cumulative rs)))"

definition summary_of :: "joined list \<Rightarrow> group_key \<Rightarrow> summary" where
  "summary_of rs k =
     \<lparr> sm_Producer = fst k, sm_Month = fst (snd k), sm_Channel = snd (snd k),
       sm_Top_Programme = Max (set (map Programme (group_rows rs k))),
       sm_Highest_Viewers = max_skipna (map Viewers (group_rows rs k)),
       sm_Sum_of_Viewers = sum_skipna (map Viewers (group_rows rs k)),
       sm_Cumulative_Viewers = group_cumulative rs k \<rparr>"

text \<open>The running sum in the words of the specification: in a table \<open>s\<close>, the total at
  row \<open>i\<close> is the sum of Viewers (a null counting for nothing) over the rows up to and
  including \<open>i\<close> that have the producer of row \<open>i\<close>, whatever their month and channel.
  The cell of the running-sum column is null where Producer or Viewers is null.\<close>

definition viewers0 :: "joined \<Rightarrow> int" where
  "viewers0 r = (case Viewers r of None \<Rightarrow> 0 | Some v \<Rightarrow> v)"

definition running_total :: "joined list \<Rightarrow> nat \<Rightarrow> int" where
  "running_total s i =
     sum_list (map viewers0 (filter (\<lambda>r. Producer r = Producer (s ! i)) (take (Suc i) s)))"

definition running_cell :: "joined list \<Rightarrow> nat \<Rightarrow> int option" where
  "running_cell s i =
     (if Producer (s ! i) = None \<or> Viewers (s ! i) = None then None else Some (running_total s i))"

text \<open>The sum of the magnitudes of the Viewers of a table. While it stays below \<open>2^53\<close>
  no running total leaves the range in which \<^verbatim>\<open>int64\<close> and \<^verbatim>\<open>float64\<close> sums are
  exact.\<close>

definition total_viewers :: "joined list \<Rightarrow> int" where
  "total_viewers rs = sum_list (map (\<lambda>r. \<bar>viewers0 r\<bar>) rs)"

text \<open>A joined row that has a Month; a joined row with a null Month or a null Channel;
  the fields of a record that come from the rows of its group alone.\<close>

definition dated :: "joined \<Rightarrow> bool" where
  "dated r = (Month r \<noteq> None)"

definition peak_fields :: "summary \<Rightarrow> group_key \<times> string \<times> int option \<times> int" where
  "peak_fields rec =
     (summary_key rec, sm_Top_Programme rec, sm_Highest_Viewers rec, sm_Sum_of_Viewers rec)"


definition null_key :: "joined \<Rightarrow> bool" where
  "null_key r = (Month r = None \<or> Channel r = None)"

text \<open>Calendar dates: a year of at most four digits and a month from 1 to 12, as every
  pandas timestamp has. The text of a month: four digits, a hyphen, and two digits that
  read as a number from 1 to 12.\<close>

definition date_ok :: "date_cell \<Rightarrow> bool" where
  "date_ok c = (case c of NotADate \<Rightarrow> True
                | Datetime (y, m, d, t) \<Rightarrow> 0 \<le> y \<and> y \<le> 9999 \<and> 1 \<le> m \<and> m \<le> 12)"

definition period_ok :: "period \<Rightarrow> bool" where
  "period_ok p = (case p of (y, m) \<Rightarrow> 0 \<le> y \<and> y \<le> 9999 \<and> 1 \<le> m \<and> m \<le> 12)"


definition digit_value :: "char \<Rightarrow> int" where
  "digit_value c = of_char c - 48"


text \<open>The month a text of the form YYYY-MM names, and the key of a written record with
  its Month read back as a month.\<close>

definition month_of_text :: "string \<Rightarrow> period" where
  "month_of_text s =
     (1000 * digit_value (s ! 0) + 100 * digit_value (s ! 1) + 10 * digit_value (s ! 2) +
        digit_value (s ! 3),
      10 * digit_value (s ! 5) + digit_value (s ! 6))"

definition output_key :: "out_record \<Rightarrow> group_key" where
  "output_key rec = (out_Producer rec, month_of_text (out_Month rec), out_Channel rec)"

section \<open>Example frames\<close>

text \<open>A viewing sheet with a padded programme name, a blank Viewers cell and a date
  that does not parse; a producers sheet that knows "Q" and "R" but not "Z". Then the
  frames the stages make of them.\<close>

definition example_viewings :: "viewing frame" where
  "example_viewings =
     \<lparr> columns = [''Date'', ''Programme'', ''Territory'', ''Channel'', ''Viewers''],
       rows = [\<lparr> raw_Date = Datetime (2024, 1, 5, 0), raw_Programme = ''Q'',
                 raw_Territory = ''UK'', raw_Channel = Some 101, raw_Viewers = Some 1000 \<rparr>,
               \<lparr> raw_Date = Datetime (2024, 1, 20, 0), raw_Programme = '' Z '',
                 raw_Territory = ''UK'', raw_Channel = Some 101, raw_Viewers = None \<rparr>,
               \<lparr> raw_Date = NotADate, raw_Programme = ''Q'',
                 raw_Territory = ''UK'', raw_Channel = Some 101, raw_Viewers = Some 7 \<rparr>,
               \<lparr> raw_Date = Datetime (2024, 2, 3, 0), raw_Programme = ''Q'',
                 raw_Territory = ''UK'', raw_Channel = Some 101, raw_Viewers = Some 200 \<rparr>] \<rparr>"

definition example_producers :: "producer frame" where
  "example_producers =
     \<lparr> columns = [''Programme'', ''Producer''],
       rows = [\<lparr> pr_Programme = ''Q'', pr_Producer = Some ''A'' \<rparr>,
               \<lparr> pr_Programme = ''R'', pr_Producer = Some ''B'' \<rparr>] \<rparr>"

definition example_normalized :: "nviewing frame" where
  "example_normalized =
     \<lparr> columns = [''Date'', ''Programme'', ''Territory'', ''Channel'', ''Viewers'', ''Month''],
       rows = [\<lparr> nv_Date = Some (2024, 1, 5, 0), nv_Month = Some (2024, 1), nv_Programme = ''Q'',
                 nv_Territory = ''UK'', nv_Channel = Some 101, nv_Viewers = Some 1000 \<rparr>,
               \<lparr> nv_Date = Some (2024, 1, 20, 0), nv_Month = Some (2024, 1), nv_Programme = ''Z'',
                 nv_Territory = ''UK'', nv_Channel = Some 101, nv_Viewers = Some 0 \<rparr>,
               \<lparr> nv_Date = None, nv_Month = None, nv_Programme = ''Q'',
                 nv_Territory = ''UK'', nv_Channel = Some 101, nv_Viewers = Some 7 \<rparr>,
               \<lparr> nv_Date = Some (2024, 2, 3, 0), nv_Month = Some (2024, 2), nv_Programme = ''Q'',
                 nv_Territory = ''UK'', nv_Channel = Some 101, nv_Viewers = Some 200 \<rparr>] \<rparr>"

definition joined_jan :: joined where
  "joined_jan = \<lparr> Programme = ''Q'', Producer = Some ''A'', Date = Some (2024, 1, 5, 0),
                  Month = Some (2024, 1), Territory = Some ''UK'', Channel = Some 101,
                  Viewers = Some 1000 \<rparr>"

definition joined_undated :: joined where
  "joined_undated = \<lparr> Programme = ''Q'', Producer = Some ''A'', Date = None, Month = None,
                      Territory = Some ''UK'', Channel = Some 101, Viewers = Some 7 \<rparr>"

definition joined_feb :: joined where
  "joined_feb = \<lparr> Programme = ''Q'', Producer = Some ''A'', Date = Some (2024, 2, 3, 0),
                  Month = Some (2024, 2), Territory = Some ''UK'', Channel = Some 101,
                  Viewers = Some 200 \<rparr>"

definition joined_producer_only :: joined where
  "joined_producer_only = \<lparr> Programme = ''R'', Producer = Some ''B'', Date = None, Month = None,
                            Territory = None, Channel = None, Viewers = None \<rparr>"

definition joined_unknown :: joined where
  "joined_unknown = \<lparr> Programme = ''Z'', Producer = Some ''Unknown'', Date = Some (2024, 1, 20, 0),
                      Month = Some (2024, 1), Territory = Some ''UK'', Channel = Some 101,
                      Viewers = Some 0 \<rparr>"

definition example_joined :: "joined frame" where
  "example_joined =
     \<lparr> columns = [''Programme'', ''Producer'', ''Date'', ''Territory'', ''Channel'', ''Viewers'',
                  ''Month''],
       rows = [joined_jan, joined_undated, joined_feb, joined_producer_only, joined_unknown] \<rparr>"

definition summary_jan :: summary where
  "summary_jan = \<lparr> sm_Producer = ''A'', sm_Month = (2024, 1), sm_Channel = 101,
                   sm_Top_Programme = ''Q'', sm_Highest_Viewers = Some 1000,
                   sm_Sum_of_Viewers = 1000, sm_Cumulative_Viewers = Some 1000 \<rparr>"

definition summary_feb :: summary where
  "summary_feb = \<lparr> sm_Producer = ''A'', sm_Month = (2024, 2), sm_Channel = 101,
                   sm_Top_Programme = ''Q'', sm_Highest_Viewers = Some 200,
                   sm_Sum_of_Viewers = 200, sm_Cumulative_Viewers = Some 1200 \<rparr>"

definition summary_unknown :: summary where
  "summary_unknown = \<lparr> sm_Producer = ''Unknown'', sm_Month = (2024, 1), sm_Channel = 101,
                       sm_Top_Programme = ''Z'', sm_Highest_Viewers = Some 0,
                       sm_Sum_of_Viewers = 0, sm_Cumulative_Viewers = Some 0 \<rparr>"

definition output_jan :: out_record where
  "output_jan = \<lparr> out_Producer = ''A'', out_Month = ''2024-01'', out_Channel = 101,
                  out_Top_Programme = ''Q'', out_Highest_Viewers = 1000,
                  out_Sum_of_Viewers = 1000, out_Cumulative_Viewers = 1000 \<rparr>"

definition output_feb :: out_record where
  "output_feb = \<lparr> out_Producer = ''A'', out_Month = ''2024-02'', out_Channel = 101,
                  out_Top_Programme = ''Q'', out_Highest_Viewers = 200,
                  out_Sum_of_Viewers = 200, out_Cumulative_Viewers = 1200 \<rparr>"

definition output_unknown :: out_record where
  "output_unknown = \<lparr> out_Producer = ''Unknown'', out_Month = ''2024-01'', out_Channel = 101,
                      out_Top_Programme = ''Z'', out_Highest_Viewers = 0,
                      out_Sum_of_Viewers = 0, out_Cumulative_Viewers = 0 \<rparr>"

text \<open>Sheets about one programme, "Q" of the producer "A", shown in 2024 in the UK: a
  viewing row is given by its month, day, Channel and Viewers, a written record of "A" on
  channel 101 by its Month, Highest_Viewers, Sum_of_Viewers and Cumulative_Viewers.\<close>

definition q_row :: "int \<Rightarrow> int \<Rightarrow> int option \<Rightarrow> int \<Rightarrow> viewing" where
  "q_row m d c v =
     \<lparr> raw_Date = Datetime (2024, m, d, 0), raw_Programme = ''Q'', raw_Territory = ''UK'',
       raw_Channel = c, raw_Viewers = Some v \<rparr>"

definition q_viewings :: "viewing list \<Rightarrow> viewing frame" where
  "q_viewings rs =
     \<lparr> columns = [''Date'', ''Programme'', ''Territory'', ''Channel'', ''Viewers''], rows = rs \<rparr>"

definition q_producers :: "producer frame" where
  "q_producers =
     \<lparr> columns = [''Programme'', ''Producer''],
       rows = [\<lparr> pr_Programme = ''Q'', pr_Producer = Some ''A'' \<rparr>] \<rparr>"

definition q_joined :: "int \<Rightarrow> int \<Rightarrow> int option \<Rightarrow> int \<Rightarrow> joined" where
  "q_joined m d c v =
     \<lparr> Programme = ''Q'', Producer = Some ''A'', Date = Some (2024, m, d, 0),
       Month = Some (2024, m), Territory = Some ''UK'', Channel = c, Viewers = Some v \<rparr>"

definition a_record :: "string \<Rightarrow> int \<Rightarrow> int \<Rightarrow> int \<Rightarrow> out_record" where
  "a_record month highest sum_of cumulative =
     \<lparr> out_Producer = ''A'', out_Month = month, out_Channel = 101, out_Top_Programme = ''Q'',
       out_Highest_Viewers = highest, out_Sum_of_Viewers = sum_of,
       out_Cumulative_Viewers = cumulative \<rparr>"

section \<open>Properties\<close>

subsection \<open>Groups, keys and the top programme\<close>

lemma collect_map_Inr:
  "(\<And>x. x \<in> set xs \<Longrightarrow> g x = Inr (f x)) \<Longrightarrow> collect (map g xs) = Inr (map f xs)"
  by (induction xs) auto

lemma collect_InrD:
  "collect xs = Inr vs \<Longrightarrow> xs = map Inr vs"
  by (induction xs arbitrary: vs) (auto split: sum.splits)

lemma set_map_filter: "set (List.map_filter f xs) = {y. \<exists>x\<in>set xs. f x = Some y}"
  by (induction xs) (auto simp: List.map_filter_simps split: option.splits)

lemma set_map_filter_id: "set (List.map_filter id xs) = {v. Some v \<in> set xs}"
  by (auto simp: set_map_filter)

lemma groupby_keys_sorted_list: "groupby_keys rs = sorted_list_of_set (set (List.map_filter group_key rs))"
  by (simp add: groupby_keys_def sorted_list_of_set_sort_remdups)

lemma set_groupby_keys: "set (groupby_keys rs) = {k. \<exists>r\<in>set rs. group_key r = Some k}"
  by (simp add: groupby_keys_def set_map_filter)

lemma sorted_groupby_keys: "sorted (groupby_keys rs)"
  by (simp add: groupby_keys_def)

lemma distinct_groupby_keys: "distinct (groupby_keys rs)"
  by (simp add: groupby_keys_def)

lemma strict_sorted_groupby_keys: "sorted_wrt (<) (groupby_keys rs)"
  using sorted_groupby_keys distinct_groupby_keys
  by (simp add: strict_sorted_iff)

lemma group_rows_nonempty: "k \<in> set (groupby_keys rs) \<Longrightarrow> group_rows rs k \<noteq> []"
  by (auto simp: set_groupby_keys group_rows_def filter_empty_conv)

lemma group_key_SomeD:
  "group_key r = Some k \<Longrightarrow> Producer r = Some (fst k) \<and> Month r = Some (fst (snd k)) \<and> Channel r = Some (snd (snd k))"
  by (auto simp: group_key_def split: option.splits)

lemma group_key_not_null: "group_key r = Some k \<Longrightarrow> \<not> null_key r"
  by (auto simp: group_key_def null_key_def split: option.splits)

lemma idxmax_loop_value:
  "best < i \<Longrightarrow> (pre @ xs) ! best = bv \<Longrightarrow> length pre = i \<Longrightarrow> \<forall>y\<in>set pre. y \<le> bv
   \<Longrightarrow> (pre @ xs) ! idxmax_loop xs i best bv = Max (set (pre @ xs)) \<and> idxmax_loop xs i best bv < length (pre @ xs)"
proof (induction xs arbitrary: i best bv pre)
  case Nil
  then show ?case
    apply simp
    by (metis Max_eqI List.finite_set nth_mem)
next
  case (Cons x xs)
  show ?case
  proof (cases "bv < x")
    case True
    have "(((pre @ [x]) @ xs) ! idxmax_loop xs (Suc i) i x = Max (set ((pre @ [x]) @ xs))) \<and> idxmax_loop xs (Suc i) i x < length ((pre @ [x]) @ xs)"
      apply (rule Cons.IH)
      using Cons.prems True by (auto simp: nth_append)
    then show ?thesis using True by simp
  next
    case False
    have "(((pre @ [x]) @ xs) ! idxmax_loop xs (Suc i) best bv = Max (set ((pre @ [x]) @ xs))) \<and> idxmax_loop xs (Suc i) best bv < length ((pre @ [x]) @ xs)"
      apply (rule Cons.IH)
      using Cons.prems False by (auto simp: nth_append)
    then show ?thesis using False by simp
  qed
qed

lemma top_programme_Max: "x \<noteq> [] \<Longrightarrow> top_programme x = Inr (Max (set x))"
proof (cases x)
  case Nil then show "x \<noteq> [] \<Longrightarrow> ?thesis" by simp
next
  case (Cons a as)
  have "([a] @ as) ! idxmax_loop as 1 0 a = Max (set ([a] @ as))"
    using idxmax_loop_value[of 0 1 "[a]" as a] by simp
  then show ?thesis using Cons by (simp add: top_programme_def idxmax_def)
qed

lemma max_skipna_Max:
  "max_skipna xs = (if List.map_filter id xs = [] then None else Some (Max (set (List.map_filter id xs))))"
  by (auto simp: max_skipna_def Max.set_eq_fold[symmetric] simp del: set_simps split: list.splits)

lemma max_skipna_SomeD:
  assumes "max_skipna xs = Some m"
  shows "Some m \<in> set xs \<and> (\<forall>v. Some v \<in> set xs \<longrightarrow> v \<le> m)"
proof -
  define ys where "ys = List.map_filter id xs"
  have set_ys: "set ys = {v. Some v \<in> set xs}"
    unfolding ys_def by (rule set_map_filter_id)
  from assms have ne: "ys \<noteq> []" and m: "Max (set ys) = m"
    unfolding max_skipna_Max ys_def by (simp_all split: if_splits)
  have "set ys \<noteq> {}" using ne by simp
  then have "Max (set ys) \<in> set ys" by (rule Max_in[OF finite_set])
  then have "m \<in> set ys" by (simp only: m)
  then have 1: "Some m \<in> set xs" by (simp add: set_ys)
  have 2: "v \<le> m" if "Some v \<in> set xs" for v
  proof -
    from that have "v \<in> set ys" unfolding set_ys by simp
    then have "v \<le> Max (set ys)" by (rule Max_ge[OF finite_set])
    then show ?thesis unfolding m .
  qed
  from 1 2 show ?thesis by blast
qed

lemma max_skipna_SomeI:
  assumes "Some m \<in> set xs" and "\<forall>v. Some v \<in> set xs \<longrightarrow> v \<le> m"
  shows "max_skipna xs = Some m"
proof -
  define ys where "ys = List.map_filter id xs"
  have set_ys: "set ys = {v. Some v \<in> set xs}"
    unfolding ys_def by (rule set_map_filter_id)
  have in_ys: "m \<in> set ys" using assms(1) unfolding set_ys by simp
  then have ne: "ys \<noteq> []" by auto
  have le: "\<And>v. v \<in> set ys \<Longrightarrow> v \<le> m"
    using assms(2) unfolding set_ys by simp
  have "Max (set ys) = m"
    by (rule Max_eqI[OF finite_set le in_ys])
  then show ?thesis using ne unfolding max_skipna_Max ys_def by simp
qed

lemma filter_key_map_distinct:
  "distinct ks \<Longrightarrow> k \<in> set ks \<Longrightarrow> filter (\<lambda>kc. fst kc = k) (map (\<lambda>k. (k, C k)) ks) = [(k, C k)]"
  by (induction ks) (auto simp: filter_empty_conv)

lemma merge_summary_same_keys:
  assumes "distinct ks"
  shows "merge_summary (map (\<lambda>k. (k, T k, H k, S k)) ks) (map (\<lambda>k. (k, C k)) ks)
       = map (\<lambda>k. \<lparr> sm_Producer = fst k, sm_Month = fst (snd k), sm_Channel = snd (snd k),
                     sm_Top_Programme = T k, sm_Highest_Viewers = H k, sm_Sum_of_Viewers = S k,
                     sm_Cumulative_Viewers = C k \<rparr>) ks"
proof -
  have "\<And>k. k \<in> set ks \<Longrightarrow> filter (\<lambda>kc. fst kc = k) (map (\<lambda>k. (k, C k)) ks) = [(k, C k)]"
    using assms by (rule filter_key_map_distinct)
  then have "\<And>js. set js \<subseteq> set ks \<Longrightarrow> merge_summary (map (\<lambda>k. (k, T k, H k, S k)) js) (map (\<lambda>k. (k, C k)) ks)
       = map (\<lambda>k. \<lparr> sm_Producer = fst k, sm_Month = fst (snd k), sm_Channel = snd (snd k),
                     sm_Top_Programme = T k, sm_Highest_Viewers = H k, sm_Sum_of_Viewers = S k,
                     sm_Cumulative_Viewers = C k \<rparr>) js"
    subgoal for js
      by (induction js) (auto simp: merge_summary_def)
    done
  then show ?thesis by simp
qed

lemma mset_sort_values: "mset (sort_values rs) = mset rs"
  by (simp add: sort_values_def)

lemma set_sort_values: "set (sort_values rs) = set rs"
  by (simp add: sort_values_def)

lemma sorted_sort_values: "sorted (map sort_columns (sort_values rs))"
  by (simp add: sort_values_def)

lemma sort_values_filter: "sort_values (filter P rs) = filter P (sort_values rs)"
  by (simp add: sort_values_def filter_sort)

lemma groupby_keys_sort_values: "groupby_keys (sort_values rs) = groupby_keys rs"
  by (simp add: groupby_keys_sorted_list set_map_filter set_sort_values)

lemma peak_summary_closed:
  "peak_summary rs = Inr (map (\<lambda>k. (k, Max (set (map Programme (group_rows rs k))),
        max_skipna (map Viewers (group_rows rs k)), sum_skipna (map Viewers (group_rows rs k)))) (groupby_keys rs))"
  unfolding peak_summary_def
  apply (rule collect_map_Inr)
  apply (simp add: peak_row_def Let_def)
  apply (subst top_programme_Max)
   apply (simp add: group_rows_nonempty)
  apply simp
  done

text \<open>What \<^verbatim>\<open>aggregate_data\<close> returns: one record per key, in the order of the keys.\<close>

lemma aggregate_data_closed:
  "aggregate_data df =
     (if set required_columns \<subseteq> set (columns df)
      then Inr (map (summary_of (rows df)) (groupby_keys (rows df))) else Inl KeyError)"
proof -
  have "merge_summary (map (\<lambda>k. (k, Max (set (map Programme (group_rows rs k))),
        max_skipna (map Viewers (group_rows rs k)), sum_skipna (map Viewers (group_rows rs k)))) (groupby_keys rs))
        (cumulative_summary rs) = map (summary_of rs) (groupby_keys rs)" for rs
    unfolding cumulative_summary_def groupby_keys_sort_values group_cumulative_def[symmetric]
    apply (subst merge_summary_same_keys)
     apply (rule distinct_groupby_keys)
    apply (simp add: summary_of_def[abs_def])
    done
  then show ?thesis
    unfolding aggregate_data_def required_columns_def peak_summary_closed
    by simp
qed

lemma summary_key_summary_of: "summary_key (summary_of rs k) = k"
  by (simp add: summary_key_def summary_of_def)

lemma aggregate_data_InrD:
  "aggregate_data df = Inr final \<Longrightarrow> final = map (summary_of (rows df)) (groupby_keys (rows df))"
  by (simp add: aggregate_data_closed split: if_splits)

lemma keys_of_aggregate:
  "aggregate_data df = Inr final \<Longrightarrow> map summary_key final = groupby_keys (rows df)"
  by (auto dest!: aggregate_data_InrD simp: summary_key_summary_of comp_def)

lemma rec_of_aggregate:
  assumes "aggregate_data df = Inr final" "rec \<in> set final"
  shows "summary_key rec \<in> set (groupby_keys (rows df)) \<and> rec = summary_of (rows df) (summary_key rec)"
  using assms by (auto dest!: aggregate_data_InrD simp: summary_key_summary_of)

lemma count_key_distinct:
  "distinct ks \<Longrightarrow> length (filter (\<lambda>k'. k' = k) ks) = (if k \<in> set ks then 1 else 0)"
  by (induction ks) auto

subsection \<open>The running sum\<close>

lemma length_cumsum: "length (cumsum acc s) = length s"
  by (induction s arbitrary: acc) (auto split: option.splits)

lemma running_total_Cons_Suc:
  "running_total (r # s) (Suc i) = (if Producer r = Producer (s ! i) then viewers0 r else 0) + running_total s i"
  by (simp add: running_total_def)

lemma running_total_0: "running_total (r # s) 0 = viewers0 r"
  by (simp add: running_total_def)

lemma wrap64_id:
  "- 9223372036854775808 \<le> x \<Longrightarrow> x < 9223372036854775808 \<Longrightarrow> wrap64 x = x"
  by (simp add: wrap64_def mod_pos_pos_trivial)

lemma total_viewers_Cons: "total_viewers (r # s) = \<bar>viewers0 r\<bar> + total_viewers s"
  by (simp add: total_viewers_def)

lemma total_viewers_nonneg: "0 \<le> total_viewers s"
  unfolding total_viewers_def by (rule sum_list_nonneg) auto

lemma total_viewers_sort_values: "total_viewers (sort_values rs) = total_viewers rs"
proof -
  have "total_viewers s = sum_mset (image_mset (\<lambda>r. \<bar>viewers0 r\<bar>) (mset s))" for s
    unfolding total_viewers_def by (metis mset_map sum_mset_sum_list)
  then show ?thesis by (simp add: mset_sort_values)
qed

text \<open>While the totals stay in range, the cells of \<^verbatim>\<open>cumsum\<close> are the running totals of
  the specification.\<close>

lemma cumsum_nth:
  "i < length s \<Longrightarrow> \<forall>p. \<bar>acc p\<bar> + total_viewers s < 9223372036854775808 \<Longrightarrow>
   cumsum acc s ! i =
     (case Producer (s ! i) of None \<Rightarrow> None
      | Some p \<Rightarrow> (case Viewers (s ! i) of None \<Rightarrow> None
                   | Some v \<Rightarrow> Some (acc p + running_total s i)))"
proof (induction s arbitrary: acc i)
  case Nil
  then show ?case by simp
next
  case (Cons r s)
  note tv = total_viewers_Cons[of r s] and nn = total_viewers_nonneg[of s]
  show ?case
  proof (cases "\<exists>p v. Producer r = Some p \<and> Viewers r = Some v")
    case False
    then have c: "cumsum acc (r # s) = None # cumsum acc s"
      by (auto split: option.splits)
    have b: "\<forall>p. \<bar>acc p\<bar> + total_viewers s < 9223372036854775808"
    proof
      fix p show "\<bar>acc p\<bar> + total_viewers s < 9223372036854775808"
        using Cons.prems(2)[rule_format, of p] tv by linarith
    qed
    show ?thesis
    proof (cases i)
      case 0
      then show ?thesis using False by (auto split: option.splits)
    next
      case (Suc j)
      then have j: "j < length s" using Cons.prems(1) by simp
      have "viewers0 r = 0" if "Producer r = Producer (s ! j)" "Producer (s ! j) = Some p" for p
        using False that by (cases "Viewers r") (auto simp: viewers0_def)
      then show ?thesis
        unfolding c Suc using Cons.IH[OF j b]
        by (auto simp: running_total_Cons_Suc split: option.splits)
    qed
  next
    case True
    then obtain p v where p: "Producer r = Some p" and v: "Viewers r = Some v" by blast
    have v0: "viewers0 r = v" using v by (simp add: viewers0_def)
    have "\<bar>acc p\<bar> + \<bar>v\<bar> + total_viewers s < 9223372036854775808"
      using Cons.prems(2)[rule_format, of p] tv v0 by linarith
    then have w: "wrap64 (acc p + v) = acc p + v"
      using nn by (intro wrap64_id) linarith+
    define acc' where "acc' = (\<lambda>q. if q = p then wrap64 (acc p + v) else acc q)"
    have c: "cumsum acc (r # s) = Some (acc p + v) # cumsum acc' s"
      by (simp add: p v w acc'_def)
    have acc': "acc' q = (if q = p then acc p + v else acc q)" for q
      by (simp add: acc'_def w)
    have b: "\<forall>q. \<bar>acc' q\<bar> + total_viewers s < 9223372036854775808"
    proof
      fix q show "\<bar>acc' q\<bar> + total_viewers s < 9223372036854775808"
      proof (cases "q = p")
        case True
        then have e: "acc' q = acc p + v" by (simp add: acc')
        show ?thesis
          unfolding e using Cons.prems(2)[rule_format, of p] tv v0 by linarith
      next
        case False
        then have e: "acc' q = acc q" by (simp add: acc')
        show ?thesis
          unfolding e using Cons.prems(2)[rule_format, of q] tv by linarith
      qed
    qed
    show ?thesis
    proof (cases i)
      case 0
      show ?thesis
        unfolding c 0 by (simp add: p v running_total_0 v0)
    next
      case (Suc j)
      then have j: "j < length s" using Cons.prems(1) by simp
      note IH = Cons.IH[OF j b]
      show ?thesis
      proof (cases "Producer (s ! j)")
        case None
        then show ?thesis unfolding c Suc using IH by simp
      next
        case (Some q)
        note q = this
        show ?thesis
        proof (cases "Viewers (s ! j)")
          case None
          then show ?thesis unfolding c Suc using IH q by simp
        next
          case (Some u)
          have "cumsum acc' s ! j = Some (acc' q + running_total s j)"
            using IH q Some by simp
          moreover have "acc' q + running_total s j = acc q + running_total (r # s) (Suc j)"
            by (cases "q = p") (simp_all add: acc' running_total_Cons_Suc p v0 q)
          ultimately show ?thesis
            unfolding c Suc by (simp add: q Some)
        qed
      qed
    qed
  qed
qed

lemma cumsum_zero_nth:
  "i < length s \<Longrightarrow> total_viewers s < 9223372036854775808 \<Longrightarrow>
   cumsum (\<lambda>p. 0) s ! i = running_cell s i"
  by (simp add: cumsum_nth running_cell_def split: option.splits)

lemma zip_filter_fst_index:
  "length cs = length s \<Longrightarrow>
   map snd (filter (\<lambda>rc. P (fst rc)) (zip s cs)) = map (\<lambda>i. cs ! i) (filter (\<lambda>i. P (s ! i)) [0..<length s])"
proof -
  assume l: "length cs = length s"
  have "zip s cs = map (\<lambda>i. (s ! i, cs ! i)) [0..<length s]"
    using l by (intro nth_equalityI) auto
  then show ?thesis
    by (simp add: filter_map comp_def)
qed

lemma group_cumulative_index:
  assumes "total_viewers rs < 9223372036854775808"
  shows "group_cumulative rs k =
     max_skipna (map (running_cell (sort_values rs))
                     (filter (\<lambda>i. group_key (sort_values rs ! i) = Some k) [0..<length (sort_values rs)]))"
proof -
  let ?s = "sort_values rs"
  have range: "total_viewers ?s < 9223372036854775808"
    using assms by (simp add: total_viewers_sort_values)
  have "map snd (filter (\<lambda>rc. group_key (fst rc) = Some k) (zip ?s (cumsum (\<lambda>p. 0) ?s)))
      = map (\<lambda>i. cumsum (\<lambda>p. 0) ?s ! i) (filter (\<lambda>i. group_key (?s ! i) = Some k) [0..<length ?s])"
    by (rule zip_filter_fst_index) (simp add: length_cumsum)
  also have "\<dots> = map (running_cell ?s) (filter (\<lambda>i. group_key (?s ! i) = Some k) [0..<length ?s])"
    by (rule map_cong) (auto simp: cumsum_zero_nth[OF _ range])
  finally show ?thesis
    by (simp add: group_cumulative_def with_cumulative_def)
qed

lemma running_total_mono:
  assumes nn: "\<forall>r\<in>set s. 0 \<le> viewers0 r" and ij: "i \<le> j" and j: "j < length s"
    and p: "Producer (s ! i) = Producer (s ! j)"
  shows "running_total s i \<le> running_total s j"
proof -
  have split: "take (Suc j) s = take (Suc i) s @ drop (Suc i) (take (Suc j) s)"
    using ij append_take_drop_id[of "Suc i" "take (Suc j) s"] by (simp add: min_def)
  have "running_total s j = running_total s i
      + sum_list (map viewers0 (filter (\<lambda>r. Producer r = Producer (s ! j)) (drop (Suc i) (take (Suc j) s))))"
    unfolding running_total_def p
    by (subst split) simp
  moreover have "0 \<le> sum_list (map viewers0 (filter (\<lambda>r. Producer r = Producer (s ! j)) (drop (Suc i) (take (Suc j) s))))"
    apply (rule sum_list_nonneg)
    using nn by (auto dest!: in_set_dropD in_set_takeD)
  ultimately show ?thesis by simp
qed

lemma group_key_less_sort_columns:
  assumes "group_key r = Some k" "group_key r' = Some k'" "k < k'"
  shows "sort_columns r < sort_columns r'"
proof -
  obtain p m c where k: "k = (p, m, c)" by (cases k) auto
  obtain p' m' c' where k': "k' = (p', m', c')" by (cases k') auto
  have r: "Producer r = Some p" "Month r = Some m" "Channel r = Some c"
    using group_key_SomeD[OF assms(1)] k by simp_all
  have r': "Producer r' = Some p'" "Month r' = Some m'" "Channel r' = Some c'"
    using group_key_SomeD[OF assms(2)] k' by simp_all
  have lt: "p < p' \<or> p \<le> p' \<and> (m < m' \<or> m \<le> m' \<and> c < c')"
    using assms(3) unfolding k k' by simp
  then show ?thesis
    unfolding sort_columns_def na_last_def r r'
    by auto
qed

lemma sorted_group_positions:
  assumes s: "sorted (map sort_columns s)" and i: "i < length s" and j: "j < length s"
    and ki: "group_key (s ! i) = Some k" and kj: "group_key (s ! j) = Some k'" and lt: "k < k'"
  shows "i < j"
proof (rule ccontr)
  assume "\<not> i < j"
  then have "j \<le> i" by simp
  then have "map sort_columns s ! j \<le> map sort_columns s ! i"
    using s i by (simp add: sorted_iff_nth_mono del: nth_map)
  then have "sort_columns (s ! j) \<le> sort_columns (s ! i)" using i j by simp
  moreover have "sort_columns (s ! i) < sort_columns (s ! j)"
    using ki kj lt by (rule group_key_less_sort_columns)
  ultimately show False by simp
qed

lemma sorted_le_last: "sorted xs \<Longrightarrow> x \<in> set xs \<Longrightarrow> x \<le> last xs"
  by (induction xs) auto

lemma group_positions_nonempty:
  assumes "k \<in> set (groupby_keys rs)"
  shows "filter (\<lambda>i. group_key (sort_values rs ! i) = Some k) [0..<length (sort_values rs)] \<noteq> []"
proof -
  from assms obtain r where "r \<in> set rs" "group_key r = Some k"
    by (auto simp: set_groupby_keys)
  then have "r \<in> set (sort_values rs)" by (simp add: set_sort_values)
  then obtain i where "i < length (sort_values rs)" "sort_values rs ! i = r"
    by (auto simp: in_set_conv_nth)
  with \<open>group_key r = Some k\<close> show ?thesis
    by (auto simp: filter_empty_conv)
qed

lemma cumulative_attained:
  assumes "group_cumulative rs k = Some a" and range: "total_viewers rs < 9223372036854775808"
  shows "\<exists>i<length (sort_values rs). group_key (sort_values rs ! i) = Some k \<and>
           Viewers (sort_values rs ! i) \<noteq> None \<and> a = running_total (sort_values rs) i"
proof -
  let ?s = "sort_values rs"
  from assms(1) have "Some a \<in> set (map (running_cell ?s)
      (filter (\<lambda>i. group_key (?s ! i) = Some k) [0..<length ?s]))"
    unfolding group_cumulative_index[OF range] by (auto dest: max_skipna_SomeD)
  then obtain i where "i < length ?s" "group_key (?s ! i) = Some k" "running_cell ?s i = Some a"
    by auto
  then show ?thesis
    by (auto simp: running_cell_def split: if_splits)
qed

subsection \<open>Rows with a null key\<close>

text \<open>A row with a null Month comes after every dated row of its producer, so its Viewers
  reach the running total of no dated row.\<close>

lemma cumsum_agree:
  "(\<forall>y\<in>set s. dated y \<longrightarrow> Producer y \<noteq> Some p) \<Longrightarrow> (\<forall>q. q \<noteq> p \<longrightarrow> acc q = acc' q) \<Longrightarrow>
   filter (\<lambda>rc. dated (fst rc)) (zip s (cumsum acc s))
     = filter (\<lambda>rc. dated (fst rc)) (zip s (cumsum acc' s))"
proof (induction s arbitrary: acc acc')
  case Nil
  then show ?case by simp
next
  case (Cons y s)
  have tl: "\<forall>y\<in>set s. dated y \<longrightarrow> Producer y \<noteq> Some p"
    using Cons.prems(1) by simp
  show ?case
  proof (cases "Producer y")
    case None
    then show ?thesis by (simp add: Cons.IH[OF tl Cons.prems(2)])
  next
    case (Some q)
    note q = this
    show ?thesis
    proof (cases "Viewers y")
      case None
      then show ?thesis by (simp add: q Cons.IH[OF tl Cons.prems(2)])
    next
      case (Some v)
      show ?thesis
      proof (cases "q = p")
        case True
        then have nk: "\<not> dated y" using Cons.prems(1) q by auto
        have agree: "\<forall>q'. q' \<noteq> p \<longrightarrow> (\<lambda>a. if a = q then wrap64 (acc q + v) else acc a) q'
                                     = (\<lambda>a. if a = q then wrap64 (acc' q + v) else acc' a) q'"
          using Cons.prems(2) True by simp
        show ?thesis
          by (simp add: q Some nk Cons.IH[OF tl agree])
      next
        case False
        then have eq: "acc q = acc' q" using Cons.prems(2) by simp
        have agree: "\<forall>q'. q' \<noteq> p \<longrightarrow> (\<lambda>a. if a = q then wrap64 (acc q + v) else acc a) q'
                                     = (\<lambda>a. if a = q then wrap64 (acc' q + v) else acc' a) q'"
          using Cons.prems(2) by simp
        show ?thesis
          by (simp add: q Some eq Cons.IH[OF tl agree])
      qed
    qed
  qed
qed

lemma null_month_sorts_last:
  assumes "Producer x = Some p" "Month x = None" "Producer y = Some p" "dated y"
  shows "sort_columns y < sort_columns x"
  using assms by (auto simp: sort_columns_def na_last_def dated_def)

lemma cumsum_drop_null_month:
  "sorted (map sort_columns s) \<Longrightarrow>
   filter (\<lambda>rc. dated (fst rc)) (zip s (cumsum acc s))
     = zip (filter dated s) (cumsum acc (filter dated s))"
proof (induction s arbitrary: acc)
  case Nil
  then show ?case by simp
next
  case (Cons x s)
  have sorted_tl: "sorted (map sort_columns s)" and le: "\<forall>y\<in>set s. sort_columns x \<le> sort_columns y"
    using Cons.prems(1) by simp_all
  note IH = Cons.IH[OF sorted_tl]
  show ?case
  proof (cases "dated x")
    case True
    then show ?thesis
      by (simp add: IH split: option.splits)
  next
    case False
    then have m: "Month x = None" by (cases "Month x") (simp_all add: dated_def)
    show ?thesis
    proof (cases "\<exists>p v. Producer x = Some p \<and> Viewers x = Some v")
      case none: False
      then have "cumsum acc (x # s) = None # cumsum acc s"
        by (auto split: option.splits)
      then show ?thesis using False by (simp add: IH)
    next
      case ex: True
      then obtain p v where p: "Producer x = Some p" and v: "Viewers x = Some v" by blast
      have others: "\<forall>y\<in>set s. dated y \<longrightarrow> Producer y \<noteq> Some p"
      proof (intro ballI impI notI)
        fix y assume y: "y \<in> set s" "dated y" "Producer y = Some p"
        have "sort_columns y < sort_columns x"
          using null_month_sorts_last[OF p m y(3) y(2)] .
        moreover have "sort_columns x \<le> sort_columns y" using le y(1) by simp
        ultimately show False by simp
      qed
      have agree: "\<forall>q. q \<noteq> p \<longrightarrow> (\<lambda>a. if a = p then wrap64 (acc p + v) else acc a) q = acc q"
        by simp
      have "filter (\<lambda>rc. dated (fst rc)) (zip (x # s) (cumsum acc (x # s)))
          = filter (\<lambda>rc. dated (fst rc))
              (zip s (cumsum (\<lambda>a. if a = p then wrap64 (acc p + v) else acc a) s))"
        by (simp add: False p v)
      also have "\<dots> = filter (\<lambda>rc. dated (fst rc)) (zip s (cumsum acc s))"
        by (rule cumsum_agree[OF others agree])
      also have "\<dots> = zip (filter dated s) (cumsum acc (filter dated s))"
        by (rule IH)
      finally show ?thesis using False by simp
    qed
  qed
qed

lemma group_key_dated: "group_key r = Some k \<Longrightarrow> dated r"
  by (auto simp: group_key_def dated_def split: option.splits)

lemma group_cumulative_drop_null_month:
  "group_cumulative (filter dated rs) k = group_cumulative rs k"
proof -
  let ?s = "sort_values rs"
  let ?keep = "dated"
  have "filter (\<lambda>rc. group_key (fst rc) = Some k) (zip ?s (cumsum (\<lambda>p. 0) ?s))
      = filter (\<lambda>rc. group_key (fst rc) = Some k)
          (filter (\<lambda>rc. dated (fst rc)) (zip ?s (cumsum (\<lambda>p. 0) ?s)))"
    by (auto simp: filter_filter intro!: filter_cong dest: group_key_dated)
  also have "\<dots> = filter (\<lambda>rc. group_key (fst rc) = Some k)
          (zip (filter ?keep ?s) (cumsum (\<lambda>p. 0) (filter ?keep ?s)))"
    by (simp only: cumsum_drop_null_month[OF sorted_sort_values])
  finally show ?thesis
    by (simp add: group_cumulative_def with_cumulative_def sort_values_filter)
qed

lemma group_rows_drop_null_month:
  "group_rows (filter dated rs) k = group_rows rs k"
  by (auto simp: group_rows_def filter_filter intro!: filter_cong dest: group_key_dated)

lemma groupby_keys_drop_null_month:
  "groupby_keys (filter dated rs) = groupby_keys rs"
  by (auto simp: groupby_keys_sorted_list set_map_filter dest: group_key_dated intro!: arg_cong[where f=sorted_list_of_set])

lemma summary_drop_null_month:
  "map (summary_of (filter dated rs)) (groupby_keys (filter dated rs))
     = map (summary_of rs) (groupby_keys rs)"
  by (simp add: groupby_keys_drop_null_month summary_of_def[abs_def] group_rows_drop_null_month
        group_cumulative_drop_null_month)

lemma group_rows_drop_null_keys:
  "group_rows (filter (\<lambda>r. \<not> null_key r) rs) k = group_rows rs k"
  by (auto simp: group_rows_def filter_filter intro!: filter_cong dest: group_key_not_null)

lemma groupby_keys_drop_null_keys:
  "groupby_keys (filter (\<lambda>r. \<not> null_key r) rs) = groupby_keys rs"
  by (auto simp: groupby_keys_sorted_list set_map_filter dest: group_key_not_null intro!: arg_cong[where f=sorted_list_of_set])

lemma peak_fields_drop_null_keys:
  "map (\<lambda>k. peak_fields (summary_of (filter (\<lambda>r. \<not> null_key r) rs) k))
       (groupby_keys (filter (\<lambda>r. \<not> null_key r) rs))
     = map (\<lambda>k. peak_fields (summary_of rs k)) (groupby_keys rs)"
  by (simp add: groupby_keys_drop_null_keys peak_fields_def summary_key_def summary_of_def
        group_rows_drop_null_keys)

subsection \<open>The join\<close>

lemma set_merge_key:
  "set (merge_key ps vs) =
     (if vs = [] then producer_only ` set ps
      else if ps = [] then viewing_only ` set vs
      else {matched p v | p v. p \<in> set ps \<and> v \<in> set vs})"
  by (auto simp: merge_key_def)

lemma set_merge_outer:
  "set (merge_outer ps vs) =
     (\<Union>k\<in>set (map pr_Programme ps @ map nv_Programme vs).
        set (merge_key (filter (\<lambda>p. pr_Programme p = k) ps) (filter (\<lambda>v. nv_Programme v = k) vs)))"
  by (simp add: merge_outer_def)

lemma joined_Programme:
  "Programme (producer_only p) = pr_Programme p" "Programme (viewing_only v) = nv_Programme v"
  "Programme (matched p v) = nv_Programme v"
  by (simp_all add: producer_only_def viewing_only_def matched_def)

lemma joined_Month_Viewers:
  "Month (producer_only p) = None"
  "Month (viewing_only v) = nv_Month v" "Viewers (viewing_only v) = nv_Viewers v"
  "Month (matched p v) = nv_Month v" "Viewers (matched p v) = nv_Viewers v"
  by (simp_all add: producer_only_def viewing_only_def matched_def)

lemma merge_outer_cases:
  assumes "r \<in> set (merge_outer ps vs)"
  shows "(\<exists>p\<in>set ps. r = producer_only p \<and> pr_Programme p \<notin> nv_Programme ` set vs) \<or>
         (\<exists>v\<in>set vs. r = viewing_only v \<and> nv_Programme v \<notin> pr_Programme ` set ps) \<or>
         (\<exists>p\<in>set ps. \<exists>v\<in>set vs. r = matched p v \<and> pr_Programme p = nv_Programme v)"
proof -
  from assms obtain k where
    r: "r \<in> set (merge_key (filter (\<lambda>p. pr_Programme p = k) ps) (filter (\<lambda>v. nv_Programme v = k) vs))"
    unfolding set_merge_outer by blast
  show ?thesis
  proof (cases "filter (\<lambda>v. nv_Programme v = k) vs = []")
    case True
    then have "k \<notin> nv_Programme ` set vs" by (auto simp: filter_empty_conv)
    then show ?thesis using r True by (auto simp: set_merge_key)
  next
    case False
    note nv = this
    show ?thesis
    proof (cases "filter (\<lambda>p. pr_Programme p = k) ps = []")
      case True
      then have "k \<notin> pr_Programme ` set ps" by (auto simp: filter_empty_conv)
      then show ?thesis using r nv True by (auto simp: set_merge_key)
    next
      case False
      then obtain p v where "p \<in> set ps" "pr_Programme p = k" "v \<in> set vs" "nv_Programme v = k"
        "r = matched p v"
        using r nv by (auto simp: set_merge_key)
      then have "\<exists>p\<in>set ps. \<exists>v\<in>set vs. r = matched p v \<and> pr_Programme p = nv_Programme v"
        by metis
      then show ?thesis by blast
    qed
  qed
qed

lemma viewing_in_merge_outer:
  assumes v: "v \<in> set vs"
  shows "(nv_Programme v \<notin> pr_Programme ` set ps \<and> viewing_only v \<in> set (merge_outer ps vs)) \<or>
         (\<exists>p\<in>set ps. pr_Programme p = nv_Programme v \<and> matched p v \<in> set (merge_outer ps vs))"
proof -
  let ?k = "nv_Programme v"
  let ?P = "filter (\<lambda>p. pr_Programme p = ?k) ps"
  let ?V = "filter (\<lambda>v'. nv_Programme v' = ?k) vs"
  have vV: "v \<in> set ?V" using v by simp
  have ne: "?V \<noteq> []" using v by (auto simp: filter_empty_conv)
  have sub: "set (merge_key ?P ?V) \<subseteq> set (merge_outer ps vs)"
    unfolding set_merge_outer using v by auto
  show ?thesis
  proof (cases "?P = []")
    case True
    then have "?k \<notin> pr_Programme ` set ps" by (auto simp: filter_empty_conv)
    moreover have "viewing_only v \<in> set (merge_key ?P ?V)"
      using True ne vV by (simp add: set_merge_key)
    ultimately show ?thesis using sub by blast
  next
    case False
    then obtain p where p: "p \<in> set ?P" by (cases ?P) auto
    then have "matched p v \<in> set (merge_key ?P ?V)"
      using False ne vV by (auto simp: set_merge_key)
    then show ?thesis using sub p by auto
  qed
qed

lemma fillna_Producer_fields:
  "Programme (fillna_Producer r) = Programme r" "Date (fillna_Producer r) = Date r"
  "Month (fillna_Producer r) = Month r" "Territory (fillna_Producer r) = Territory r"
  "Channel (fillna_Producer r) = Channel r" "Viewers (fillna_Producer r) = Viewers r"
  "Producer (fillna_Producer r) = Some (case Producer r of None \<Rightarrow> ''Unknown'' | Some p \<Rightarrow> p)"
  by (simp_all add: fillna_Producer_def split: option.splits)

lemma merge_data_InrD:
  assumes "merge_data pf nf = Inr j"
  shows "columns j = merge_columns (columns pf) (columns nf)"
    and "rows j = (if ''Producer'' \<in> set (columns j) then map fillna_Producer (merge_outer (rows pf) (rows nf))
                   else merge_outer (rows pf) (rows nf))"
  using assms by (auto simp: merge_data_def Let_def split: if_splits)

lemma merge_rows_month:
  assumes "merge_data pf nf = Inr j" "r \<in> set (rows j)" "Month r = Some p"
  shows "\<exists>v\<in>set (rows nf). nv_Month v = Some p \<and> Viewers r = nv_Viewers v"
proof -
  from assms(1,2) obtain r0 where r0: "r0 \<in> set (merge_outer (rows pf) (rows nf))"
    and rr: "r = r0 \<or> r = fillna_Producer r0"
    using merge_data_InrD(2)[OF assms(1)] by (auto split: if_splits)
  have m: "Month r0 = Some p" and v: "Viewers r = Viewers r0"
    using rr assms(3) by (auto simp: fillna_Producer_fields)
  have "\<not> (\<exists>q. r0 = producer_only q)"
    using m by (auto simp: joined_Month_Viewers)
  then obtain w where w: "w \<in> set (rows nf)" "r0 = viewing_only w \<or> (\<exists>q. r0 = matched q w)"
    using merge_outer_cases[OF r0] by blast
  then have "nv_Month w = Some p" "Viewers r0 = nv_Viewers w"
    using m by (auto simp: joined_Month_Viewers)
  then show ?thesis using w(1) v by auto
qed

lemma preprocess_data_rows:
  "preprocess_data vf = Inr nf \<Longrightarrow>
   rows nf = map (preprocess_row (''Viewers'' \<in> set (columns vf))) (rows vf)"
  by (auto simp: preprocess_data_def split: if_splits)

subsection \<open>The casts and the text of a month\<close>

lemma convert_row_InrD:
  assumes "convert_row s = Inr rec"
  shows "out_Producer rec = sm_Producer s" "out_Month rec = period_str (sm_Month s)"
    "out_Channel rec = sm_Channel s" "out_Top_Programme rec = sm_Top_Programme s"
    "sm_Highest_Viewers s = Some (out_Highest_Viewers rec)"
    "out_Sum_of_Viewers rec = sm_Sum_of_Viewers s"
    "sm_Cumulative_Viewers s = Some (out_Cumulative_Viewers rec)"
  using assms by (auto simp: convert_row_def astype_int_def split: option.splits)

lemma convert_data_types_InrD:
  assumes "convert_data_types final = Inr out"
  shows "map convert_row final = map Inr out"
  using assms unfolding convert_data_types_def by (rule collect_InrD)

lemma process_InrD:
  assumes "process_and_save_data vf pf = Inr out"
  obtains nf j final where "preprocess_data vf = Inr nf" "merge_data pf nf = Inr j"
    "aggregate_data j = Inr final" "convert_data_types final = Inr out"
  using assms
  by (auto simp: process_and_save_data_def save_summary_to_json_def split: sum.splits)

lemma of_char_digit: "0 \<le> n \<Longrightarrow> n < 10 \<Longrightarrow> (of_char (digit n) :: int) = 48 + n"
  by (simp add: digit_def)


lemma digit_value_digit: "0 \<le> n \<Longrightarrow> n < 10 \<Longrightarrow> digit_value (digit n) = n"
  by (simp add: digit_value_def of_char_digit)


lemma to_period_ok:
  "date_ok c \<Longrightarrow> to_period (to_datetime c) = Some p \<Longrightarrow> period_ok p"
  by (cases c) (auto simp: date_ok_def period_ok_def split: prod.splits)

lemma pipeline_months_ok:
  assumes pre: "preprocess_data vf = Inr nf" and mer: "merge_data pf nf = Inr j"
    and dates: "\<forall>v\<in>set (rows vf). date_ok (raw_Date v)"
    and r: "r \<in> set (rows j)" "Month r = Some p"
  shows "period_ok p"
proof -
  from merge_rows_month[OF mer r] obtain v where "v \<in> set (rows nf)" "nv_Month v = Some p"
    by blast
  then obtain v0 where "v0 \<in> set (rows vf)" "to_period (to_datetime (raw_Date v0)) = Some p"
    unfolding preprocess_data_rows[OF pre] by (auto simp: preprocess_row_def)
  then show ?thesis using dates to_period_ok by blast
qed

text \<open>Reading the text of a month gives the month back.\<close>

lemma div_100: "(y::int) div 100 = y div 10 div 10"
  using zdiv_zmult2_eq[of 10 y 10] by simp

lemma div_1000: "(y::int) div 1000 = y div 10 div 10 div 10"
  using zdiv_zmult2_eq[of 10 y 100] div_100[of y] by simp

lemma year_digits:
  assumes "0 \<le> (y::int)" "y \<le> 9999"
  shows "1000 * (y div 1000 mod 10) + 100 * (y div 100 mod 10) + 10 * (y div 10 mod 10) + y mod 10 = y"
proof -
  define a where "a = y div 10"
  define b where "b = a div 10"
  define c where "c = b div 10"
  have 1: "y = 10 * a + y mod 10" unfolding a_def by simp
  have 2: "a = 10 * b + a mod 10" unfolding b_def by simp
  have 3: "b = 10 * c + b mod 10" unfolding c_def by simp
  have "0 \<le> a" "a < 1000" using assms unfolding a_def by linarith+
  then have "0 \<le> b" "b < 100" unfolding b_def by linarith+
  then have "0 \<le> c" "c < 10" unfolding c_def by linarith+
  then have 4: "c mod 10 = c" by simp
  have e: "y div 1000 = c" "y div 100 = b" "y div 10 = a"
    unfolding div_1000 div_100 a_def b_def c_def by (rule refl)+
  have "1000 * (c mod 10) + 100 * (b mod 10) + 10 * (a mod 10) + y mod 10 = y"
    using 1 2 3 4 by linarith
  then show ?thesis unfolding e .
qed

lemma month_digits:
  assumes "1 \<le> (m::int)" "m \<le> 12"
  shows "10 * (m div 10 mod 10) + m mod 10 = m"
proof -
  have "m div 10 mod 10 = m div 10"
    using assms by (intro mod_pos_pos_trivial) (simp_all add: div_int_pos_iff)
  then show ?thesis by simp
qed

lemma month_of_text_period_str:
  assumes "period_ok p"
  shows "month_of_text (period_str p) = p"
proof -
  obtain y m where p: "p = (y, m)" by (cases p)
  have b: "0 \<le> y" "y \<le> 9999" "1 \<le> m" "m \<le> 12"
    using assms by (simp_all add: period_ok_def p)
  have v: "digit_value (digit (k mod 10)) = k mod 10" for k :: int
    by (rule digit_value_digit) simp_all
  have nth: "period_str (y, m) ! 0 = digit (y div 1000 mod 10)"
    "period_str (y, m) ! 1 = digit (y div 100 mod 10)"
    "period_str (y, m) ! 2 = digit (y div 10 mod 10)" "period_str (y, m) ! 3 = digit (y mod 10)"
    "period_str (y, m) ! 5 = digit (m div 10 mod 10)" "period_str (y, m) ! 6 = digit (m mod 10)"
    by (simp_all add: period_str_def)
  show ?thesis
    unfolding p month_of_text_def nth v year_digits[OF b(1,2)] month_digits[OF b(3,4)] ..
qed

subsection \<open>The example, stage by stage\<close>

text \<open>Stripping takes the no-break space U+00A0 and the em space U+2003 with the ASCII
  whitespace, and leaves the inside of a name alone.\<close>

lemma example_strip:
  "strip '' Z '' = ''Z''"
  "strip [CHR 0xC2, CHR 0xA0, CHR ''Q'', CHR 0xE2, CHR 0x80, CHR 0x83, CHR 0x0A] = ''Q''"
  "strip ''Show  A'' = ''Show  A''"
  by code_simp+

text \<open>A sheet with its header row and no other row: \<^verbatim>\<open>.dt\<close> raises.\<close>

lemma example_empty_sheet:
  "preprocess_data (q_viewings []) = Inl AttributeError"
  "process_and_save_data (q_viewings []) q_producers = Inl AttributeError"
  by code_simp+

lemma example_preprocess: "preprocess_data example_viewings = Inr example_normalized"
  by code_simp

lemma example_merge: "merge_data example_producers example_normalized = Inr example_joined"
  by code_simp

lemma example_sort:
  "sort_values (rows example_joined)
     = [joined_jan, joined_feb, joined_undated, joined_producer_only, joined_unknown]"
  by code_simp

lemma example_aggregate:
  "aggregate_data example_joined = Inr [summary_jan, summary_feb, summary_unknown]"
  by code_simp

lemma example_drop_null:
  "filter dated (rows example_joined) = [joined_jan, joined_feb, joined_unknown]"
  "filter (\<lambda>r. \<not> null_key r) (rows example_joined) = [joined_jan, joined_feb, joined_unknown]"
  by code_simp+

lemma example_range: "total_viewers (rows example_joined) < 9007199254740992"
  by code_simp

lemma example_process:
  "process_and_save_data example_viewings example_producers
     = Inr [output_jan, output_feb, output_unknown]"
  by code_simp

section \<open>The claims\<close>

subsection \<open>The scenario of the specification\<close>

text \<open>
  C7. On the viewing rows (2024-01-05, "Show A", "UK", 101, 1000) and
  (2024-01-20, "Show A", "UK", 101, 500) and the producer row ("Show A", "Acme"), the
  pipeline writes exactly one record: Producer "Acme", Month "2024-01", Channel 101,
  Top_Programme "Show A", Highest_Viewers 1000, Sum_of_Viewers 1500,
  Cumulative_Viewers 1500.
\<close>

theorem scenario_show_a:
  "process_and_save_data
     \<lparr> columns = [''Date'', ''Programme'', ''Territory'', ''Channel'', ''Viewers''],
       rows = [\<lparr> raw_Date = Datetime (2024, 1, 5, 0), raw_Programme = ''Show A'',
                 raw_Territory = ''UK'', raw_Channel = Some 101, raw_Viewers = Some 1000 \<rparr>,
               \<lparr> raw_Date = Datetime (2024, 1, 20, 0), raw_Programme = ''Show A'',
                 raw_Territory = ''UK'', raw_Channel = Some 101, raw_Viewers = Some 500 \<rparr>] \<rparr>
     \<lparr> columns = [''Programme'', ''Producer''],
       rows = [\<lparr> pr_Programme = ''Show A'', pr_Producer = Some ''Acme'' \<rparr>] \<rparr>
   = Inr [\<lparr> out_Producer = ''Acme'', out_Month = ''2024-01'', out_Channel = 101,
            out_Top_Programme = ''Show A'', out_Highest_Viewers = 1000,
            out_Sum_of_Viewers = 1500, out_Cumulative_Viewers = 1500 \<rparr>]"
  by code_simp

subsection \<open>Peak and sum of a group\<close>

text \<open>
  C1. A group's record should carry the programme of the row with the most viewers. The
  aggregation of \<^verbatim>\<open>Top_Programme\<close> receives the Programme column alone and takes
  \<^verbatim>\<open>idxmax\<close> of it, so it returns the greatest programme name of the group
  (\<open>peak_summary_closed\<close>). With "Alpha" seen by 1000 and "Zeta" seen by 500 in one
  group, the pipeline writes Top_Programme "Zeta"; Highest_Viewers 1000 and
  Sum_of_Viewers 1500 are the maximum and the sum of the group.
\<close>

theorem top_programme_is_last_name:
  "process_and_save_data
     \<lparr> columns = [''Date'', ''Programme'', ''Territory'', ''Channel'', ''Viewers''],
       rows = [\<lparr> raw_Date = Datetime (2024, 1, 5, 0), raw_Programme = ''Alpha'',
                 raw_Territory = ''UK'', raw_Channel = Some 101, raw_Viewers = Some 1000 \<rparr>,
               \<lparr> raw_Date = Datetime (2024, 1, 20, 0), raw_Programme = ''Zeta'',
                 raw_Territory = ''UK'', raw_Channel = Some 101, raw_Viewers = Some 500 \<rparr>] \<rparr>
     \<lparr> columns = [''Programme'', ''Producer''],
       rows = [\<lparr> pr_Programme = ''Alpha'', pr_Producer = Some ''Acme'' \<rparr>,
               \<lparr> pr_Programme = ''Zeta'', pr_Producer = Some ''Acme'' \<rparr>] \<rparr>
   = Inr [\<lparr> out_Producer = ''Acme'', out_Month = ''2024-01'', out_Channel = 101,
            out_Top_Programme = ''Zeta'', out_Highest_Viewers = 1000,
            out_Sum_of_Viewers = 1500, out_Cumulative_Viewers = 1500 \<rparr>]"
  by code_simp

subsection \<open>The cumulative aggregate\<close>

text \<open>
  C2, as the code has it. The running sum of a group need not end on its greatest value.
  With 5 and then -3 viewers in the one group (A, 2024-01, 101) the pipeline writes
  Cumulative_Viewers 5, and the running total at the last row of the group is 2. With
  \<open>2^62\<close> viewers twice the \<^verbatim>\<open>int64\<close> running sum is \<open>2^62\<close> and then \<open>-2^63\<close>: the
  pipeline writes Cumulative_Viewers \<open>2^62\<close> (and Sum_of_Viewers \<open>-2^63\<close>), and the
  running total at the last row is \<open>2^63\<close>.
\<close>

theorem cumulative_viewers_not_last_total:
  "process_and_save_data (q_viewings [q_row 1 5 (Some 101) 5, q_row 1 20 (Some 101) (- 3)])
     q_producers = Inr [a_record ''2024-01'' 5 2 5] \<and>
   sort_values [q_joined 1 5 (Some 101) 5, q_joined 1 20 (Some 101) (- 3)]
     = [q_joined 1 5 (Some 101) 5, q_joined 1 20 (Some 101) (- 3)] \<and>
   running_total [q_joined 1 5 (Some 101) 5, q_joined 1 20 (Some 101) (- 3)] 1 = 2 \<and>
   process_and_save_data
     (q_viewings [q_row 1 5 (Some 101) 4611686018427387904,
                  q_row 1 20 (Some 101) 4611686018427387904])
     q_producers
     = Inr [a_record ''2024-01'' 4611686018427387904 (- 9223372036854775808)
              4611686018427387904] \<and>
   running_total [q_joined 1 5 (Some 101) 4611686018427387904,
                  q_joined 1 20 (Some 101) 4611686018427387904] 1 = 9223372036854775808"
proof -
  have "process_and_save_data (q_viewings [q_row 1 5 (Some 101) 5, q_row 1 20 (Some 101) (- 3)])
     q_producers = Inr [a_record ''2024-01'' 5 2 5]"
    by code_simp
  moreover have "sort_values [q_joined 1 5 (Some 101) 5, q_joined 1 20 (Some 101) (- 3)]
     = [q_joined 1 5 (Some 101) 5, q_joined 1 20 (Some 101) (- 3)]"
    by code_simp
  moreover have "running_total [q_joined 1 5 (Some 101) 5, q_joined 1 20 (Some 101) (- 3)] 1 = 2"
    by code_simp
  moreover have "process_and_save_data
     (q_viewings [q_row 1 5 (Some 101) 4611686018427387904,
                  q_row 1 20 (Some 101) 4611686018427387904])
     q_producers
     = Inr [a_record ''2024-01'' 4611686018427387904 (- 9223372036854775808)
              4611686018427387904]"
    by code_simp
  moreover have "running_total [q_joined 1 5 (Some 101) 4611686018427387904,
                  q_joined 1 20 (Some 101) 4611686018427387904] 1 = 9223372036854775808"
    by code_simp
  ultimately show ?thesis by (intro conjI)
qed

text \<open>
  C2, amended. Let the magnitudes of the Viewers of the joined table sum to less than
  \<open>2^53\<close>, let \<open>s\<close> be the joined table sorted by (Producer, Month, Channel, Date), nulls
  last, and \<open>idx\<close> the positions in \<open>s\<close> of the rows of a record's group. Then \<open>s\<close> is a
  sorted rearrangement of the joined table, the group is not empty, and the record's
  Cumulative_Viewers is the greatest cell over \<open>idx\<close> of the running sum taken per
  producer over the whole of \<open>s\<close>. When moreover no Viewers value is negative and the last
  row of the group has a Viewers value, it is the running total at that last row.
\<close>

theorem cumulative_viewers_running_sum:
  assumes agg: "aggregate_data df = Inr final" and rec: "rec \<in> set final"
    and range: "total_viewers (rows df) < 9007199254740992"
    and s: "s = sort_values (rows df)"
    and idx: "idx = filter (\<lambda>i. group_key (s ! i) = Some (sm_Producer rec, sm_Month rec, sm_Channel rec))
                           [0..<length s]"
  shows "mset s = mset (rows df) \<and> sorted (map sort_columns s) \<and> idx \<noteq> [] \<and>
         sm_Cumulative_Viewers rec = max_skipna (map (running_cell s) idx) \<and>
         ((\<forall>r\<in>set (rows df). 0 \<le> viewers0 r) \<and> Viewers (s ! last idx) \<noteq> None \<longrightarrow>
            sm_Cumulative_Viewers rec = Some (running_total s (last idx)))"
proof -
  let ?k = "summary_key rec"
  have range': "total_viewers (rows df) < 9223372036854775808"
    using range by simp
  have k: "?k \<in> set (groupby_keys (rows df))" and r: "rec = summary_of (rows df) ?k"
    using rec_of_aggregate[OF agg rec] by simp_all
  have idx': "idx = filter (\<lambda>i. group_key (s ! i) = Some ?k) [0..<length s]"
    using idx by (simp add: summary_key_def)
  have ne: "idx \<noteq> []"
    unfolding idx' s by (rule group_positions_nonempty[OF k])
  have cum: "sm_Cumulative_Viewers rec = max_skipna (map (running_cell s) idx)"
    by (subst r) (simp add: summary_of_def group_cumulative_index[OF range'] idx' s)
  have last: "sm_Cumulative_Viewers rec = Some (running_total s (last idx))"
    if nn: "\<forall>r\<in>set (rows df). 0 \<le> viewers0 r" and v: "Viewers (s ! last idx) \<noteq> None"
  proof -
    have l: "last idx \<in> set idx" using ne by simp
    then have ll: "last idx < length s" and kl: "group_key (s ! last idx) = Some ?k"
      unfolding idx' by auto
    have pl: "Producer (s ! last idx) = Some (fst ?k)"
      using group_key_SomeD[OF kl] by simp
    have cell: "running_cell s (last idx) = Some (running_total s (last idx))"
      using pl v by (simp add: running_cell_def)
    have nn': "\<forall>r\<in>set s. 0 \<le> viewers0 r"
      using nn by (simp add: s set_sort_values)
    have sorted_idx: "sorted idx" unfolding idx' by (rule sorted_wrt_filter) simp
    have "max_skipna (map (running_cell s) idx) = Some (running_total s (last idx))"
    proof (rule max_skipna_SomeI)
      show "Some (running_total s (last idx)) \<in> set (map (running_cell s) idx)"
        using l cell by (metis image_eqI set_map)
      show "\<forall>v. Some v \<in> set (map (running_cell s) idx) \<longrightarrow> v \<le> running_total s (last idx)"
      proof (intro allI impI)
        fix v assume "Some v \<in> set (map (running_cell s) idx)"
        then obtain i where i: "i \<in> set idx" and c: "running_cell s i = Some v" by auto
        have il: "i \<le> last idx" using sorted_le_last[OF sorted_idx i] .
        have ki: "group_key (s ! i) = Some ?k" using i unfolding idx' by simp
        have "Producer (s ! i) = Producer (s ! last idx)"
          using group_key_SomeD[OF ki] pl by simp
        then have "running_total s i \<le> running_total s (last idx)"
          using running_total_mono[OF nn' il ll] by simp
        moreover have "v = running_total s i"
          using c by (simp add: running_cell_def split: if_splits)
        ultimately show "v \<le> running_total s (last idx)" by simp
      qed
    qed
    with cum show ?thesis by simp
  qed
  show ?thesis
    using ne cum last by (simp add: s mset_sort_values sorted_sort_values)
qed

text \<open>In the example the group (A, 2024-02, 101) is the single row at position 1 of the
  sorted table; its running total, 1000 + 200, is the record's Cumulative_Viewers.\<close>

theorem cumulative_viewers_running_sum_witness:
  "sm_Cumulative_Viewers summary_feb = Some 1200 \<and>
   running_total [joined_jan, joined_feb, joined_undated, joined_producer_only, joined_unknown] 1 = 1200 \<and>
   max_skipna (map (running_cell [joined_jan, joined_feb, joined_undated, joined_producer_only,
                                  joined_unknown]) [1]) = Some 1200"
proof -
  let ?s = "[joined_jan, joined_feb, joined_undated, joined_producer_only, joined_unknown]"
  have rec: "summary_feb \<in> set [summary_jan, summary_feb, summary_unknown]" by simp
  have s: "?s = sort_values (rows example_joined)" by (simp add: example_sort)
  have idx: "[1] = filter (\<lambda>i. group_key (?s ! i) =
                 Some (sm_Producer summary_feb, sm_Month summary_feb, sm_Channel summary_feb))
               [0..<length ?s]"
    by code_simp
  have nn: "\<forall>r\<in>set (rows example_joined). 0 \<le> viewers0 r" by code_simp
  have v: "Viewers (?s ! last [1]) \<noteq> None" by code_simp
  have total: "running_total ?s 1 = 1200" by code_simp
  from cumulative_viewers_running_sum[OF example_aggregate rec example_range s idx] nn v
  have "sm_Cumulative_Viewers summary_feb = max_skipna (map (running_cell ?s) [1])"
    and "sm_Cumulative_Viewers summary_feb = Some (running_total ?s (last [1]))"
    by blast+
  then show ?thesis using total by simp
qed

text \<open>
  C6, as the code has it. With 10 viewers in January and -3 in February the pipeline
  writes Cumulative_Viewers 10 and then 7. With \<open>2^62\<close> viewers in each of the two months
  it writes \<open>2^62\<close> and then \<open>-2^63\<close>, the \<^verbatim>\<open>int64\<close> sum of the two.
\<close>

theorem cumulative_viewers_falls:
  "process_and_save_data (q_viewings [q_row 1 5 (Some 101) 10, q_row 2 3 (Some 101) (- 3)])
     q_producers = Inr [a_record ''2024-01'' 10 10 10, a_record ''2024-02'' (- 3) (- 3) 7] \<and>
   process_and_save_data
     (q_viewings [q_row 1 5 (Some 101) 4611686018427387904,
                  q_row 2 3 (Some 101) 4611686018427387904])
     q_producers
     = Inr [a_record ''2024-01'' 4611686018427387904 4611686018427387904 4611686018427387904,
            a_record ''2024-02'' 4611686018427387904 4611686018427387904
              (- 9223372036854775808)]"
proof -
  have "process_and_save_data (q_viewings [q_row 1 5 (Some 101) 10, q_row 2 3 (Some 101) (- 3)])
     q_producers = Inr [a_record ''2024-01'' 10 10 10, a_record ''2024-02'' (- 3) (- 3) 7]"
    by code_simp
  moreover have "process_and_save_data
     (q_viewings [q_row 1 5 (Some 101) 4611686018427387904,
                  q_row 2 3 (Some 101) 4611686018427387904])
     q_producers
     = Inr [a_record ''2024-01'' 4611686018427387904 4611686018427387904 4611686018427387904,
            a_record ''2024-02'' 4611686018427387904 4611686018427387904
              (- 9223372036854775808)]"
    by code_simp
  ultimately show ?thesis by (intro conjI)
qed

text \<open>
  C6, amended. When no Viewers value of the joined table is negative and the Viewers sum
  to less than \<open>2^53\<close>, two records of one producer that are in the order of
  (Month, Channel) have their Cumulative_Viewers in that order too.
\<close>

theorem cumulative_viewers_monotone:
  assumes agg: "aggregate_data df = Inr final"
    and nn: "\<forall>r\<in>set (rows df). 0 \<le> viewers0 r"
    and range: "total_viewers (rows df) < 9007199254740992"
    and x: "x \<in> set final" and y: "y \<in> set final"
    and p: "sm_Producer x = sm_Producer y"
    and le: "(sm_Month x, sm_Channel x) \<le> (sm_Month y, sm_Channel y)"
    and a: "sm_Cumulative_Viewers x = Some a" and b: "sm_Cumulative_Viewers y = Some b"
  shows "a \<le> b"
proof -
  have range': "total_viewers (rows df) < 9223372036854775808"
    using range by simp
  obtain kx where kx: "x = summary_of (rows df) kx"
    using aggregate_data_InrD[OF agg] x by auto
  obtain ky where ky: "y = summary_of (rows df) ky"
    using aggregate_data_InrD[OF agg] y by auto
  have skx: "summary_key x = kx" and sky: "summary_key y = ky"
    unfolding kx ky by (rule summary_key_summary_of)+
  show ?thesis
  proof (cases "kx = ky")
  case True
  then have "x = y" unfolding kx ky by simp
  with a b show ?thesis by simp
next
  case False
  let ?s = "sort_values (rows df)"
  have lt: "summary_key x < summary_key y"
    using False p le unfolding skx[symmetric] sky[symmetric] by (auto simp: summary_key_def)
  have cx: "group_cumulative (rows df) (summary_key x) = Some a"
    using a unfolding skx unfolding kx by (simp add: summary_of_def)
  have cy: "group_cumulative (rows df) (summary_key y) = Some b"
    using b unfolding sky unfolding ky by (simp add: summary_of_def)
  from cumulative_attained[OF cx range'] obtain i where
    i: "i < length ?s" "group_key (?s ! i) = Some (summary_key x)" "a = running_total ?s i"
    by blast
  from cumulative_attained[OF cy range'] obtain j where
    j: "j < length ?s" "group_key (?s ! j) = Some (summary_key y)" "b = running_total ?s j"
    by blast
  have "i < j"
    using sorted_group_positions[OF sorted_sort_values i(1) j(1) i(2) j(2) lt] .
  moreover have "Producer (?s ! i) = Producer (?s ! j)"
    using group_key_SomeD[OF i(2)] group_key_SomeD[OF j(2)] p by (simp add: summary_key_def)
  moreover have "\<forall>r\<in>set ?s. 0 \<le> viewers0 r"
    using nn by (simp add: set_sort_values)
  ultimately have "running_total ?s i \<le> running_total ?s j"
    using running_total_mono[of ?s i j] j(1) by simp
  then show ?thesis using i(3) j(3) by simp
qed
qed

theorem cumulative_viewers_monotone_witness:
  "sm_Cumulative_Viewers summary_jan = Some 1000 \<and> sm_Cumulative_Viewers summary_feb = Some 1200 \<and>
   (1000 :: int) \<le> 1200"
proof -
  have nn: "\<forall>r\<in>set (rows example_joined). 0 \<le> viewers0 r" by code_simp
  have x: "summary_jan \<in> set [summary_jan, summary_feb, summary_unknown]" by simp
  have y: "summary_feb \<in> set [summary_jan, summary_feb, summary_unknown]" by simp
  have p: "sm_Producer summary_jan = sm_Producer summary_feb" by code_simp
  have le: "(sm_Month summary_jan, sm_Channel summary_jan) \<le> (sm_Month summary_feb, sm_Channel summary_feb)"
    by code_simp
  have a: "sm_Cumulative_Viewers summary_jan = Some 1000" by code_simp
  have b: "sm_Cumulative_Viewers summary_feb = Some 1200" by code_simp
  from cumulative_viewers_monotone[OF example_aggregate nn example_range x y p le a b] a b
  show ?thesis by simp
qed

subsection \<open>The join\<close>

text \<open>
  C3. When the merged frame has its Producer column: every normalised viewing row has a
  joined row with its Programme, Date, Month, Territory, Channel and Viewers; a joined row
  whose Programme is not in the producers sheet has the producer "Unknown"; no joined row
  has a null Producer.
\<close>

theorem join_completeness:
  assumes m: "merge_data df_producers df_viewings = Inr j"
    and c: "''Producer'' \<in> set (columns j)"
  shows "(\<forall>v\<in>set (rows df_viewings). \<exists>r\<in>set (rows j).
            Programme r = nv_Programme v \<and> Date r = nv_Date v \<and> Month r = nv_Month v \<and>
            Territory r = Some (nv_Territory v) \<and> Channel r = nv_Channel v \<and>
            Viewers r = nv_Viewers v) \<and>
         (\<forall>r\<in>set (rows j). Programme r \<notin> pr_Programme ` set (rows df_producers) \<longrightarrow>
            Producer r = Some ''Unknown'') \<and>
         (\<forall>r\<in>set (rows j). Producer r \<noteq> None)"
proof -
  let ?ps = "rows df_producers" and ?vs = "rows df_viewings"
  have rows: "rows j = map fillna_Producer (merge_outer ?ps ?vs)"
    using merge_data_InrD(2)[OF m] c by simp
  have 1: "\<exists>r\<in>set (rows j).
            Programme r = nv_Programme v \<and> Date r = nv_Date v \<and> Month r = nv_Month v \<and>
            Territory r = Some (nv_Territory v) \<and> Channel r = nv_Channel v \<and>
            Viewers r = nv_Viewers v" if v: "v \<in> set ?vs" for v
  proof -
    from viewing_in_merge_outer[OF v, of ?ps]
    obtain r0 where r0: "r0 \<in> set (merge_outer ?ps ?vs)"
      and form: "r0 = viewing_only v \<or> (\<exists>p. r0 = matched p v)" by blast
    have "fillna_Producer r0 \<in> set (rows j)" using r0 rows by simp
    moreover have "Programme r0 = nv_Programme v \<and> Date r0 = nv_Date v \<and> Month r0 = nv_Month v \<and>
            Territory r0 = Some (nv_Territory v) \<and> Channel r0 = nv_Channel v \<and>
            Viewers r0 = nv_Viewers v"
      using form by (auto simp: viewing_only_def matched_def)
    ultimately show ?thesis
      by (intro bexI[of _ "fillna_Producer r0"]) (simp_all add: fillna_Producer_fields)
  qed
  have 2: "Producer r = Some ''Unknown''"
    if r: "r \<in> set (rows j)" and un: "Programme r \<notin> pr_Programme ` set ?ps" for r
  proof -
    from r rows obtain r0 where r0: "r0 \<in> set (merge_outer ?ps ?vs)" and rr: "r = fillna_Producer r0"
      by auto
    have prog: "Programme r0 \<notin> pr_Programme ` set ?ps"
      using un rr by (simp add: fillna_Producer_fields)
    have "\<not> (\<exists>p\<in>set ?ps. r0 = producer_only p)"
      using prog by (metis joined_Programme(1) imageI)
    moreover have "\<not> (\<exists>p\<in>set ?ps. \<exists>v\<in>set ?vs. r0 = matched p v \<and> pr_Programme p = nv_Programme v)"
      using prog by (metis joined_Programme(3) imageI)
    ultimately have "\<exists>v. r0 = viewing_only v"
      using merge_outer_cases[OF r0] by blast
    then show ?thesis using rr by (auto simp: fillna_Producer_fields viewing_only_def)
  qed
  have 3: "Producer r \<noteq> None" if "r \<in> set (rows j)" for r
    using that rows by (auto simp: fillna_Producer_fields)
  from 1 2 3 show ?thesis by blast
qed

theorem join_completeness_witness:
  "joined_unknown \<in> set (rows example_joined) \<and> Producer joined_unknown = Some ''Unknown'' \<and>
   Producer joined_producer_only \<noteq> None"
proof -
  have c: "''Producer'' \<in> set (columns example_joined)" by code_simp
  have r: "joined_unknown \<in> set (rows example_joined)" by code_simp
  have r': "joined_producer_only \<in> set (rows example_joined)" by code_simp
  have un: "Programme joined_unknown \<notin> pr_Programme ` set (rows example_producers)" by code_simp
  from join_completeness[OF example_merge c] r r' un
  show ?thesis by blast
qed

subsection \<open>Missing columns\<close>

text \<open>
  C4. A viewing sheet that lacks Viewers should fail in the normaliser. It passes:
  \<^verbatim>\<open>preprocess_data\<close> reads Date, Programme and Territory by name, inside
  \<^verbatim>\<open>try ... except KeyError\<close>, but touches Viewers only through \<^verbatim>\<open>fillna\<close>, which
  skips the column it does not find. The rows come out with their dates parsed and their
  names trimmed, the join runs, and the \<^verbatim>\<open>KeyError\<close> is raised by \<^verbatim>\<open>aggregate_data\<close>
  on the joined frame, which has no Viewers column either.
\<close>

theorem normalizer_accepts_missing_viewers:
  "preprocess_data
     \<lparr> columns = [''Date'', ''Programme'', ''Territory'', ''Channel''],
       rows = [\<lparr> raw_Date = Datetime (2024, 1, 5, 0), raw_Programme = ''Q'',
                 raw_Territory = ''UK'', raw_Channel = Some 101, raw_Viewers = None \<rparr>] \<rparr>
   = Inr \<lparr> columns = [''Date'', ''Programme'', ''Territory'', ''Channel'', ''Month''],
           rows = [\<lparr> nv_Date = Some (2024, 1, 5, 0), nv_Month = Some (2024, 1),
                     nv_Programme = ''Q'', nv_Territory = ''UK'', nv_Channel = Some 101,
                     nv_Viewers = None \<rparr>] \<rparr> \<and>
   aggregate_data
     \<lparr> columns = [''Programme'', ''Producer'', ''Date'', ''Territory'', ''Channel'', ''Month''],
       rows = [\<lparr> Programme = ''Q'', Producer = Some ''A'', Date = Some (2024, 1, 5, 0),
                 Month = Some (2024, 1), Territory = Some ''UK'', Channel = Some 101,
                 Viewers = None \<rparr>] \<rparr> = Inl KeyError \<and>
   process_and_save_data
     \<lparr> columns = [''Date'', ''Programme'', ''Territory'', ''Channel''],
       rows = [\<lparr> raw_Date = Datetime (2024, 1, 5, 0), raw_Programme = ''Q'',
                 raw_Territory = ''UK'', raw_Channel = Some 101, raw_Viewers = None \<rparr>] \<rparr>
     q_producers = Inl KeyError"
  by code_simp

subsection \<open>One record per key\<close>

text \<open>
  C5, as the code has it. A viewing row whose date does not parse is joined with the key
  (A, null, 101); the summary of that joined table has no record at all.
\<close>

theorem null_month_key_has_no_record:
  "merge_data
     \<lparr> columns = [''Programme'', ''Producer''],
       rows = [\<lparr> pr_Programme = ''Q'', pr_Producer = Some ''A'' \<rparr>] \<rparr>
     \<lparr> columns = [''Date'', ''Programme'', ''Territory'', ''Channel'', ''Viewers'', ''Month''],
       rows = [\<lparr> nv_Date = None, nv_Month = None, nv_Programme = ''Q'',
                 nv_Territory = ''UK'', nv_Channel = Some 101, nv_Viewers = Some 7 \<rparr>] \<rparr>
     = Inr \<lparr> columns = [''Programme'', ''Producer'', ''Date'', ''Territory'', ''Channel'',
                         ''Viewers'', ''Month''],
             rows = [joined_undated] \<rparr> \<and>
   (Producer joined_undated, Month joined_undated, Channel joined_undated)
     = (Some ''A'', None, Some 101) \<and>
   aggregate_data
     \<lparr> columns = [''Programme'', ''Producer'', ''Date'', ''Territory'', ''Channel'',
                  ''Viewers'', ''Month''],
       rows = [joined_undated] \<rparr> = Inr []"
  by code_simp

text \<open>
  C5, amended. For every key (Producer, Month, Channel) the summary has exactly one record
  with that key if the joined table has a row with these three values, none of them null,
  and no record otherwise.
\<close>

theorem one_record_per_key:
  assumes "aggregate_data df = Inr final"
  shows "length (filter (\<lambda>rec. summary_key rec = k) final)
           = (if \<exists>r\<in>set (rows df). group_key r = Some k then 1 else 0)"
proof -
  have keys: "map summary_key final = groupby_keys (rows df)"
    using assms by (rule keys_of_aggregate)
  have "length (filter (\<lambda>rec. summary_key rec = k) final)
      = length (filter (\<lambda>k'. k' = k) (map summary_key final))"
    by (simp add: filter_map comp_def)
  also have "\<dots> = (if k \<in> set (groupby_keys (rows df)) then 1 else 0)"
    unfolding keys by (rule count_key_distinct[OF distinct_groupby_keys])
  also have "\<dots> = (if \<exists>r\<in>set (rows df). group_key r = Some k then 1 else 0)"
    by (simp add: set_groupby_keys)
  finally show ?thesis .
qed

theorem one_record_per_key_witness:
  "length (filter (\<lambda>rec. summary_key rec = (''A'', (2024, 2), 101))
                  [summary_jan, summary_feb, summary_unknown]) = 1"
proof -
  have "\<exists>r\<in>set (rows example_joined). group_key r = Some (''A'', (2024, 2), 101)"
    by code_simp
  with one_record_per_key[OF example_aggregate, of "(''A'', (2024, 2), 101)"]
  show ?thesis by simp
qed

subsection \<open>Rows with a null key\<close>

text \<open>
  C9, as the code has it. A viewing row with a parsed date and a blank Channel is in no
  group, but it is in the running sum of its producer. With 5 viewers on a blank Channel
  in January and 7 viewers on channel 101 in February, the one record written has
  Sum_of_Viewers 7 and Cumulative_Viewers 12; without the January row it has
  Cumulative_Viewers 7.
\<close>

theorem blank_channel_row_counts:
  "process_and_save_data (q_viewings [q_row 1 10 None 5, q_row 2 3 (Some 101) 7]) q_producers
     = Inr [a_record ''2024-02'' 7 7 12] \<and>
   process_and_save_data (q_viewings [q_row 2 3 (Some 101) 7]) q_producers
     = Inr [a_record ''2024-02'' 7 7 7]"
proof -
  have "process_and_save_data (q_viewings [q_row 1 10 None 5, q_row 2 3 (Some 101) 7]) q_producers
     = Inr [a_record ''2024-02'' 7 7 12]"
    by code_simp
  moreover have "process_and_save_data (q_viewings [q_row 2 3 (Some 101) 7]) q_producers
     = Inr [a_record ''2024-02'' 7 7 7]"
    by code_simp
  ultimately show ?thesis by (intro conjI)
qed

text \<open>
  C9, amended. The rows with a null Month (a viewing row whose date did not parse, a
  producer row with no viewing row) contribute to no record: without them
  \<^verbatim>\<open>aggregate_data\<close> returns the same summary. The rows with a null Month or a null
  Channel are in no group: without them the summary has the same keys, with the same
  Top_Programme, Highest_Viewers and Sum_of_Viewers; the Viewers of a dated row with a
  null Channel stay in the running sum of its producer and so in Cumulative_Viewers.
\<close>

theorem null_month_rows_excluded:
  "aggregate_data (df \<lparr> rows := filter dated (rows df) \<rparr>) = aggregate_data df \<and>
   map_sum id (map peak_fields)
     (aggregate_data (df \<lparr> rows := filter (\<lambda>r. \<not> null_key r) (rows df) \<rparr>))
     = map_sum id (map peak_fields) (aggregate_data df)"
proof
  show "aggregate_data (df \<lparr> rows := filter dated (rows df) \<rparr>) = aggregate_data df"
    unfolding aggregate_data_closed
    by (simp add: summary_drop_null_month)
  show "map_sum id (map peak_fields)
     (aggregate_data (df \<lparr> rows := filter (\<lambda>r. \<not> null_key r) (rows df) \<rparr>))
     = map_sum id (map peak_fields) (aggregate_data df)"
    unfolding aggregate_data_closed
    by (simp add: peak_fields_drop_null_keys comp_def)
qed

theorem null_month_rows_excluded_witness:
  "aggregate_data (example_joined \<lparr> rows := [joined_jan, joined_feb, joined_unknown] \<rparr>)
     = Inr [summary_jan, summary_feb, summary_unknown]"
  using null_month_rows_excluded[of example_joined] example_aggregate example_drop_null
  by simp

subsection \<open>The records written\<close>



text \<open>
  C10. On a viewing sheet with calendar dates, the records are written in strictly
  ascending lexicographic order of the key (Producer, Month, Channel), the Month being
  the month its text names.
\<close>

theorem output_sorted_by_key:
  assumes run: "process_and_save_data df_viewings df_producers = Inr out"
    and dates: "\<forall>v\<in>set (rows df_viewings). date_ok (raw_Date v)"
  shows "sorted_wrt (<) (map output_key out)"
proof -
  from run obtain nf j final where pre: "preprocess_data df_viewings = Inr nf"
    and mer: "merge_data df_producers nf = Inr j"
    and agg: "aggregate_data j = Inr final"
    and conv: "convert_data_types final = Inr out"
    by (rule process_InrD)
  have len: "length out = length final"
    using convert_data_types_InrD[OF conv] by (metis length_map)
  have row: "convert_row (final ! i) = Inr (out ! i)" if "i < length final" for i
    using convert_data_types_InrD[OF conv] that len by (metis nth_map)
  have key: "output_key (out ! i) = summary_key (final ! i)" if i: "i < length final" for i
  proof -
    let ?k = "summary_key (final ! i)"
    have "final ! i \<in> set final" using i by simp
    from rec_of_aggregate[OF agg this] obtain r where r: "r \<in> set (rows j)" "group_key r = Some ?k"
      by (auto simp: set_groupby_keys)
    have "Month r = Some (sm_Month (final ! i))"
      using group_key_SomeD[OF r(2)] by (simp add: summary_key_def)
    then have "period_ok (sm_Month (final ! i))"
      using pipeline_months_ok[OF pre mer dates r(1)] by simp
    then show ?thesis
      using convert_row_InrD(1,2,3)[OF row[OF i]]
      by (simp add: output_key_def summary_key_def month_of_text_period_str)
  qed
  have "map output_key out = map summary_key final"
    by (rule nth_equalityI) (simp_all add: len key)
  then show ?thesis
    using keys_of_aggregate[OF agg] strict_sorted_groupby_keys by simp
qed

theorem output_sorted_by_key_witness:
  "map output_key [output_jan, output_feb, output_unknown]
     = [(''A'', (2024, 1), 101), (''A'', (2024, 2), 101), (''Unknown'', (2024, 1), 101)] \<and>
   sorted_wrt (<) [(''A'', (2024 :: int, 1 :: int), 101 :: int), (''A'', (2024, 2), 101),
                   (''Unknown'', (2024, 1), 101)]"
proof -
  have dates: "\<forall>v\<in>set (rows example_viewings). date_ok (raw_Date v)"
    by code_simp
  have keys: "map output_key [output_jan, output_feb, output_unknown]
     = [(''A'', (2024, 1), 101), (''A'', (2024, 2), 101), (''Unknown'', (2024, 1), 101)]"
    by code_simp
  from output_sorted_by_key[OF example_process dates] keys
  show ?thesis by simp
qed

end
